theory Spec2Isabelle
  imports Complex_Main
begin

section \<open>sui-catchup: the sampling, aggregation and convergence loop of main.go\<close>

text \<open>
  The program polls a metrics endpoint, hands the two checkpoint families to a
  background goroutine over a channel, and leaves its loop once the known checkpoint
  is no larger than the synced one. The embedding follows
  \<^verbatim>\<open>src/cmd/sui-catchup/main.go\<close> function by function.

  Conventions of the embedding:
  \<^item> a Go \<^verbatim>\<open>float64\<close> is a value of the datatype \<open>float64\<close>: a finite real, an
    infinity or NaN. Its subtraction rounds the exact difference to the nearest
    binary64 value, ties to even. The two zeros are one value: the program only compares
    with zero and converts to \<^verbatim>\<open>int64\<close>, which do not tell them apart;
  \<^item> a Go \<^verbatim>\<open>int64\<close> is an \<^typ>\<open>int\<close> kept in range by \<open>wrap64\<close>, written
    out at every operation that can leave the range;
  \<^item> a Go pointer that may be nil is an \<^typ>\<open>'a option\<close>;
  \<^item> a Go \<^verbatim>\<open>error\<close> is its message, \<open>None\<close> for nil; a runtime panic is a value
    of \<open>panic\<close>;
  \<^item> the package-level variables and the live writer are the fields of one record,
    passed through every function that touches them.
\<close>

subsection \<open>Floating point\<close>

datatype float64 = Finite real | PosInf | NegInf | NaN

text \<open>
  The binary exponent of a non-zero real, \<open>\<lfloor>log\<^sub>2 \<bar>x\<bar>\<rfloor>\<close>, computed on integers.
\<close>

fun bit_length :: "nat \<Rightarrow> nat" where
  "bit_length n = (if n = 0 then 0 else Suc (bit_length (n div 2)))"

declare bit_length.simps [simp del]

definition exponent :: "real \<Rightarrow> int" where
  "exponent x =
     (if 1 \<le> \<bar>x\<bar> then int (bit_length (nat \<lfloor>\<bar>x\<bar>\<rfloor>)) - 1
      else - int (bit_length (nat (\<lceil>1 / \<bar>x\<bar>\<rceil> - 1))))"

text \<open>
  The distance between neighbouring binary64 values around \<open>x\<close>: 53 significant bits,
  and the spacing of the subnormal values below \<open>2\<^sup>-\<^sup>1\<^sup>0\<^sup>2\<^sup>2\<close>.
\<close>

definition quantum :: "real \<Rightarrow> real" where
  "quantum x = 2 powi (max (exponent x) (- 1022) - 52)"

definition round_half_even :: "real \<Rightarrow> int" where
  "round_half_even y =
     (let n = \<lfloor>y\<rfloor>; d = y - of_int n
      in if d < 1 / 2 then n else if 1 / 2 < d then n + 1 else if even n then n else n + 1)"

text \<open>Rounding to nearest, ties to even, with overflow to an infinity.\<close>

definition round_f64 :: "real \<Rightarrow> float64" where
  "round_f64 x =
     (if x = 0 then Finite 0
      else let r = of_int (round_half_even (x / quantum x)) * quantum x
           in if 2 ^ 1024 \<le> \<bar>r\<bar> then (if r < 0 then NegInf else PosInf) else Finite r)"

text \<open>The operator \<^verbatim>\<open>-\<close> on \<^verbatim>\<open>float64\<close>.\<close>

fun f64_sub :: "float64 \<Rightarrow> float64 \<Rightarrow> float64" where
  "f64_sub NaN b = NaN"
| "f64_sub a NaN = NaN"
| "f64_sub PosInf PosInf = NaN"
| "f64_sub NegInf NegInf = NaN"
| "f64_sub PosInf b = PosInf"
| "f64_sub NegInf b = NegInf"
| "f64_sub (Finite a) PosInf = NegInf"
| "f64_sub (Finite a) NegInf = PosInf"
| "f64_sub (Finite a) (Finite b) = round_f64 (a - b)"

text \<open>The comparisons \<^verbatim>\<open>!= 0\<close>, \<^verbatim>\<open><= 0\<close> and \<^verbatim>\<open>< 0\<close>; a comparison with NaN is false.\<close>

definition f64_nonzero :: "float64 \<Rightarrow> bool" where
  "f64_nonzero a = (a \<noteq> Finite 0)"

fun f64_le_zero :: "float64 \<Rightarrow> bool" where
  "f64_le_zero (Finite a) = (a \<le> 0)"
| "f64_le_zero NegInf = True"
| "f64_le_zero PosInf = False"
| "f64_le_zero NaN = False"

fun f64_lt_zero :: "float64 \<Rightarrow> bool" where
  "f64_lt_zero (Finite a) = (a < 0)"
| "f64_lt_zero NegInf = True"
| "f64_lt_zero PosInf = False"
| "f64_lt_zero NaN = False"

text \<open>
  A state of the program holds binary64 values only: a finite one is its own rounding.
\<close>

definition is_binary64 :: "float64 \<Rightarrow> bool" where
  "is_binary64 a = (case a of Finite x \<Rightarrow> round_f64 x = Finite x | _ \<Rightarrow> True)"

subsection \<open>Integers and their decimal rendering\<close>

definition wrap64 :: "int \<Rightarrow> int" where
  "wrap64 i = (i + 2 ^ 63) mod 2 ^ 64 - 2 ^ 63"

text \<open>
  \<^verbatim>\<open>int64(x)\<close> of a \<^verbatim>\<open>float64\<close> drops the fraction (rounds towards zero). For NaN, an
  infinity or a value outside the \<^verbatim>\<open>int64\<close> range Go leaves the result to the
  implementation; on amd64 the conversion instruction then yields \<open>-2\<^sup>6\<^sup>3\<close>.
\<close>

definition trunc :: "real \<Rightarrow> int" where
  "trunc x = (if x < 0 then \<lceil>x\<rceil> else \<lfloor>x\<rfloor>)"

fun int64_of_float64 :: "float64 \<Rightarrow> int" where
  "int64_of_float64 (Finite x) =
     (if - (2 ^ 63) \<le> trunc x \<and> trunc x < 2 ^ 63 then trunc x else - (2 ^ 63))"
| "int64_of_float64 PosInf = - (2 ^ 63)"
| "int64_of_float64 NegInf = - (2 ^ 63)"
| "int64_of_float64 NaN = - (2 ^ 63)"

definition neg64 :: "int \<Rightarrow> int" where
  "neg64 a = wrap64 (- a)"

datatype panic = IndexOutOfRange | IntegerDivideByZero | NonPositiveTickerInterval

text \<open>Go's \<^verbatim>\<open>/\<close> on integers rounds towards zero and panics on a zero divisor.\<close>

definition quo64 :: "int \<Rightarrow> int \<Rightarrow> panic + int" where
  "quo64 a b =
     (if b = 0 then Inl IntegerDivideByZero
      else Inr (wrap64 (sgn a * sgn b * (\<bar>a\<bar> div \<bar>b\<bar>))))"

definition digit_char :: "nat \<Rightarrow> char" where
  "digit_char d = ''0123456789'' ! d"

fun digits :: "nat \<Rightarrow> string" where
  "digits n = (if n < 10 then [digit_char n] else digits (n div 10) @ [digit_char (n mod 10)])"

declare digits.simps [simp del]

text \<open>The verb \<^verbatim>\<open>%d\<close> of package fmt.\<close>

definition fmt_d :: "int \<Rightarrow> string" where
  "fmt_d i = (if i < 0 then CHR ''-'' # digits (nat (- i)) else digits (nat i))"

subsection \<open>The metric families of the Prometheus client model\<close>

text \<open>
  The types \<^verbatim>\<open>dto.MetricFamily\<close>, \<^verbatim>\<open>dto.Metric\<close> and \<^verbatim>\<open>dto.Gauge\<close> belong to the imported
  package \<^verbatim>\<open>github.com/prometheus/client_model/go\<close> (main.go, line 12). Only the fields
  that main.go reads are kept. Their getters are the generated ones: each accepts a nil
  receiver and a nil field and then returns the zero value.
\<close>

record Gauge =
  Gauge_Value :: "float64 option"

record Metric =
  Metric_Gauge :: "Gauge option"

record MetricFamily =
  Family_Name :: "string option"
  Family_Metric :: "Metric list"

definition GetName :: "MetricFamily option \<Rightarrow> string" where
  "GetName f = (case f of None \<Rightarrow> [] | Some m \<Rightarrow> (case Family_Name m of None \<Rightarrow> [] | Some n \<Rightarrow> n))"

definition GetMetric :: "MetricFamily option \<Rightarrow> Metric list" where
  "GetMetric f = (case f of None \<Rightarrow> [] | Some m \<Rightarrow> Family_Metric m)"

definition GetGauge :: "Metric \<Rightarrow> Gauge option" where
  "GetGauge m = Metric_Gauge m"

definition GetValue :: "Gauge option \<Rightarrow> float64" where
  "GetValue g =
     (case g of None \<Rightarrow> Finite 0
      | Some x \<Rightarrow> (case Gauge_Value x of None \<Rightarrow> Finite 0 | Some v \<Rightarrow> v))"

text \<open>
  The expression \<^verbatim>\<open>f.GetMetric()[0].GetGauge().GetValue()\<close> of lines 112 and 114: indexing
  an empty slice panics.
\<close>

definition first_gauge_value :: "MetricFamily option \<Rightarrow> panic + float64" where
  "first_gauge_value f =
     (case GetMetric f of [] \<Rightarrow> Inl IndexOutOfRange | m # _ \<Rightarrow> Inr (GetValue (GetGauge m)))"

subsection \<open>Package-level state\<close>

text \<open>
  Lines 17 to 26. The channel is a FIFO queue of family pointers. Its buffer of two
  entries only makes a sender wait until the aggregator has received; entries are neither
  dropped nor reordered, so the queue is a list, a send appends and a receive takes the
  head. What holds for every queue holds for the queues of at most two entries that the
  program can have. The three atomics start at zero.
\<close>

record globals =
  metric_channel :: "MetricFamily option list"
  highest_known_checkpoint :: float64
  highest_synced_checkpoint :: float64
  last_delta :: float64
  writer :: "string list"

definition initial_globals :: globals where
  "initial_globals =
     \<lparr>metric_channel = [], highest_known_checkpoint = Finite 0,
      highest_synced_checkpoint = Finite 0, last_delta = Finite 0, writer = []\<rparr>"

definition default_validator_addr :: string where
  "default_validator_addr = ''http://localhost:9187/metrics''"

definition default_update_interval :: int where
  "default_update_interval = 1"

definition chan_send :: "MetricFamily option \<Rightarrow> globals \<Rightarrow> globals" where
  "chan_send f s = s\<lparr>metric_channel := metric_channel s @ [f]\<rparr>"

definition Fprintf :: "string \<Rightarrow> globals \<Rightarrow> globals" where
  "Fprintf line s = s\<lparr>writer := writer s @ [line]\<rparr>"

subsection \<open>parseReader and parseResponse\<close>

datatype go_error = Errorf string

fun error_text :: "go_error \<Rightarrow> string" where
  "error_text (Errorf m) = m"

text \<open>
  \<^verbatim>\<open>expfmt.TextParser.TextToMetricFamilies\<close> is a function of the imported package
  \<^verbatim>\<open>github.com/prometheus/common/expfmt\<close>; it is a parameter of the model. It returns
  the families by name together with an error, nil when the payload is valid.
\<close>

type_synonym text_parser = "string \<Rightarrow> (string \<rightharpoonup> MetricFamily) \<times> go_error option"

definition parseReader :: "text_parser \<Rightarrow> string \<Rightarrow> globals \<Rightarrow> go_error option \<times> globals" where
  "parseReader TextToMetricFamilies body s =
     (case TextToMetricFamilies body of
        (metricFamilies, Some err) \<Rightarrow>
          (Some (Errorf (''reading text format failed: '' @ error_text err)), s)
      | (metricFamilies, None) \<Rightarrow>
          (None, chan_send (metricFamilies ''highest_synced_checkpoint'')
                   (chan_send (metricFamilies ''highest_known_checkpoint'') s)))"

definition parseResponse :: "text_parser \<Rightarrow> string \<Rightarrow> globals \<Rightarrow> go_error option \<times> globals" where
  "parseResponse TextToMetricFamilies body s =
     (case parseReader TextToMetricFamilies body s of
        (Some err, s') \<Rightarrow> (Some err, s')
      | (None, s') \<Rightarrow> (None, s'))"

subsection \<open>fetchMetricFamilies\<close>

text \<open>
  What package net/http does with the request is an input of the model: building the
  request fails, sending it fails, or a response arrives with its status code, status
  text and body. The verb \<^verbatim>\<open>%q\<close> is the parameter \<open>quote\<close>.
\<close>

datatype http_exchange =
    NewRequestFails string
  | DoFails string
  | Responds int string string

definition fetchMetricFamilies ::
  "(string \<Rightarrow> string) \<Rightarrow> text_parser \<Rightarrow> string \<Rightarrow> http_exchange \<Rightarrow> globals \<Rightarrow> go_error option \<times> globals"
where
  "fetchMetricFamilies quote TextToMetricFamilies url x s =
     (case x of
        NewRequestFails err \<Rightarrow>
          (Some (Errorf (''creating GET request for URL '' @ quote url @ '' failed: '' @ err)), s)
      | DoFails err \<Rightarrow>
          (Some (Errorf (''executing GET request for URL '' @ quote url @ '' failed: '' @ err)), s)
      | Responds StatusCode Status Body \<Rightarrow>
          if StatusCode \<noteq> 200
          then (Some (Errorf (''GET request for URL '' @ quote url @ '' returned HTTP status '' @ Status)), s)
          else parseResponse TextToMetricFamilies Body s)"

subsection \<open>monitorChannel\<close>

text \<open>Lines 110 to 115: the switch on the family's name.\<close>

definition store_family :: "MetricFamily option \<Rightarrow> globals \<Rightarrow> panic + globals" where
  "store_family f s =
     (if GetName f = ''highest_known_checkpoint'' then
        (case first_gauge_value f of
           Inl p \<Rightarrow> Inl p
         | Inr v \<Rightarrow> Inr (s\<lparr>highest_known_checkpoint := v\<rparr>))
      else if GetName f = ''highest_synced_checkpoint'' then
        (case first_gauge_value f of
           Inl p \<Rightarrow> Inl p
         | Inr v \<Rightarrow> Inr (s\<lparr>highest_synced_checkpoint := v\<rparr>))
      else Inr s)"

text \<open>Lines 122 to 127: the rate as text.\<close>

definition rate_text :: "int \<Rightarrow> float64 \<Rightarrow> panic + string" where
  "rate_text update_interval rate =
     (if f64_lt_zero rate then
        (case quo64 (neg64 (int64_of_float64 rate)) (wrap64 update_interval) of
           Inl p \<Rightarrow> Inl p
         | Inr n \<Rightarrow> Inr (''catching up at '' @ fmt_d n @ ''/s''))
      else
        (case quo64 (int64_of_float64 rate) (wrap64 update_interval) of
           Inl p \<Rightarrow> Inl p
         | Inr n \<Rightarrow> Inr (''falling behind at '' @ fmt_d n @ ''/s'')))"

text \<open>Lines 117 to 130: gap, rate and the status line.\<close>

definition report_status :: "int \<Rightarrow> globals \<Rightarrow> panic + globals" where
  "report_status update_interval s =
     (if f64_nonzero (highest_known_checkpoint s) \<and> f64_nonzero (highest_synced_checkpoint s) then
        (let delta = f64_sub (highest_known_checkpoint s) (highest_synced_checkpoint s);
             rate = f64_sub delta (last_delta s);
             s' = s\<lparr>last_delta := delta\<rparr>
         in case rate_text update_interval rate of
              Inl p \<Rightarrow> Inl p
            | Inr str \<Rightarrow>
                Inr (Fprintf (''Catching up, '' @ fmt_d (int64_of_float64 delta)
                              @ '' checkpoints behind ('' @ str @ '')\<newline>'') s'))
      else Inr s)"

text \<open>The body of the loop for one received family \<open>f\<close>.\<close>

definition monitor_body :: "int \<Rightarrow> MetricFamily option \<Rightarrow> globals \<Rightarrow> panic + globals" where
  "monitor_body update_interval f s =
     (case store_family f s of
        Inl p \<Rightarrow> Inl p
      | Inr s' \<Rightarrow> report_status update_interval s')"

text \<open>
  The goroutine never returns. \<open>monitorChannel update_interval n\<close> is its progress over
  at most \<open>n\<close> receives: it waits on an empty channel and a panic ends the process.
\<close>

fun monitorChannel :: "int \<Rightarrow> nat \<Rightarrow> globals \<Rightarrow> panic + globals" where
  "monitorChannel update_interval 0 s = Inr s"
| "monitorChannel update_interval (Suc n) s =
     (case metric_channel s of
        [] \<Rightarrow> Inr s
      | f # rest \<Rightarrow>
          (case monitor_body update_interval f (s\<lparr>metric_channel := rest\<rparr>) of
             Inl p \<Rightarrow> Inl p
           | Inr s' \<Rightarrow> monitorChannel update_interval n s'))"

subsection \<open>main\<close>

text \<open>
  The two goroutines run concurrently, and every load and store of an atomic is a step
  of its own. The controller acts at the fetch, at the load of line 71, at the two loads
  of line 72 (the known value first, then the synced value), at the load of line 79 and
  at the wait for the ticker. Between any two of these the aggregator may receive: each
  iteration's input names the outcome of the HTTP exchange and how many families the
  aggregator receives in each of the intervals. An interval that the controller does not
  pass through adds nothing; those receives can be counted into the wait. Only the
  aggregator stores to the atomics, one store for a received family (line 112 or 114),
  so its own loads see its own stores, and a load of the controller sees the stores of
  all receives before it. One receive, from line 109 to the status line, is one step
  here: what the controller loads does not depend on where in that step the load falls.
\<close>

record loop_input =
  exchange :: http_exchange
  received_after_fetch :: nat
  received_after_line71 :: nat
  received_within_line72 :: nat
  received_before_line79 :: nat
  received_during_wait :: nat

text \<open>Lines 64 to 67: one marker per unit of the counter.\<close>

primrec indicator :: "nat \<Rightarrow> string" where
  "indicator 0 = []"
| "indicator (Suc n) = indicator n @ ''.''"

datatype loop_step = Break nat globals | Continue nat globals | Crash panic

text \<open>Line 77: the controller waits for the ticker while the aggregator goes on.\<close>

definition wait_for_tick :: "int \<Rightarrow> loop_input \<Rightarrow> nat \<Rightarrow> globals \<Rightarrow> loop_step" where
  "wait_for_tick update_interval i errors s =
     (case monitorChannel update_interval (received_during_wait i) s of
        Inl p \<Rightarrow> Crash p
      | Inr s' \<Rightarrow> Continue errors s')"

text \<open>
  Lines 61 to 77, one pass through the loop. The counter \<open>errors\<close> is a Go \<^verbatim>\<open>int\<close>
  that only grows from zero, here a \<^typ>\<open>nat\<close>. In the branch of a successful fetch,
  \<open>s2\<close> is the state at the load of line 71, \<open>s3\<close> the state at the load of the known
  value on line 72 and \<open>s4\<close> the state at the load of the synced value.
\<close>

definition main_iteration ::
  "(string \<Rightarrow> string) \<Rightarrow> text_parser \<Rightarrow> int \<Rightarrow> string \<Rightarrow> loop_input \<Rightarrow> nat \<Rightarrow> globals \<Rightarrow> loop_step"
where
  "main_iteration quote TextToMetricFamilies update_interval validator_addr i errors s =
     (case fetchMetricFamilies quote TextToMetricFamilies validator_addr (exchange i) s of
        (err, s1) \<Rightarrow>
          (case monitorChannel update_interval (received_after_fetch i) s1 of
             Inl p \<Rightarrow> Crash p
           | Inr s2 \<Rightarrow>
               (case err of
                  Some e \<Rightarrow>
                    (let errors' = errors + 1;
                         str = indicator errors';
                         s3 = Fprintf (''Error fetching metrics: '' @ error_text e @ '' '' @ str
                                       @ ''\<newline>'') s2
                     in wait_for_tick update_interval i errors' s3)
                | None \<Rightarrow>
                    if f64_nonzero (highest_known_checkpoint s2) then
                      (case monitorChannel update_interval (received_after_line71 i) s2 of
                         Inl p \<Rightarrow> Crash p
                       | Inr s3 \<Rightarrow>
                           (case monitorChannel update_interval (received_within_line72 i) s3 of
                              Inl p \<Rightarrow> Crash p
                            | Inr s4 \<Rightarrow>
                                if f64_le_zero (f64_sub (highest_known_checkpoint s3)
                                                        (highest_synced_checkpoint s4))
                                then Break errors s4
                                else wait_for_tick update_interval i errors s4))
                    else wait_for_tick update_interval i errors s2)))"

text \<open>Lines 79 to 82, after the loop; \<open>s\<close> is the state at the load of line 79.\<close>

definition after_loop :: "globals \<Rightarrow> globals" where
  "after_loop s =
     (if f64_nonzero (highest_known_checkpoint s) then Fprintf ''Node caught up\<newline>'' s else s)"

text \<open>
  How a run ends: the fatal log of line 34, a panic, the normal return of line 83, or
  still inside the loop when the given inputs are used up. The last two carry the
  failure counter.
\<close>

datatype outcome =
    Fatal string
  | Panicked panic
  | StillPolling nat globals
  | Exited nat globals

fun main_loop ::
  "(string \<Rightarrow> string) \<Rightarrow> text_parser \<Rightarrow> int \<Rightarrow> string \<Rightarrow> loop_input list \<Rightarrow> nat \<Rightarrow> globals \<Rightarrow> outcome"
where
  "main_loop quote TextToMetricFamilies update_interval validator_addr [] errors s =
     StillPolling errors s"
| "main_loop quote TextToMetricFamilies update_interval validator_addr (i # inputs) errors s =
     (case main_iteration quote TextToMetricFamilies update_interval validator_addr i errors s of
        Crash p \<Rightarrow> Panicked p
      | Break errors' s' \<Rightarrow>
          (case monitorChannel update_interval (received_before_line79 i) s' of
             Inl p \<Rightarrow> Panicked p
           | Inr s'' \<Rightarrow> Exited errors' (after_loop s''))
      | Continue errors' s' \<Rightarrow>
          main_loop quote TextToMetricFamilies update_interval validator_addr inputs errors' s')"

text \<open>
  Lines 28 to 59. The flags are given as parsed: \<open>None\<close> for a flag that is not on the
  command line, which then has the default of lines 18 and 19. \<^verbatim>\<open>time.NewTicker\<close>
  panics unless the duration, \<^verbatim>\<open>int64\<close> nanoseconds, is positive.
\<close>

definition main ::
  "(string \<Rightarrow> string) \<Rightarrow> text_parser \<Rightarrow> string option \<Rightarrow> int option \<Rightarrow> loop_input list \<Rightarrow> outcome"
where
  "main quote TextToMetricFamilies addr_flag interval_flag inputs =
     (let validator_addr = (case addr_flag of None \<Rightarrow> default_validator_addr | Some a \<Rightarrow> a);
          update_interval = (case interval_flag of None \<Rightarrow> default_update_interval | Some n \<Rightarrow> n)
      in if validator_addr = [] then Fatal ''Please specify -addr''
         else if wrap64 (wrap64 update_interval * 1000000000) \<le> 0
         then Panicked NonPositiveTickerInterval
         else main_loop quote TextToMetricFamilies update_interval validator_addr inputs 0
                (Fprintf [] initial_globals))"

subsection \<open>Reading the channel and the written lines\<close>

text \<open>
  A Sample is a family that is really there: a nil entry of the channel carries no name
  and no reading.
\<close>

fun samples_of :: "MetricFamily option list \<Rightarrow> MetricFamily list" where
  "samples_of [] = []"
| "samples_of (None # fs) = samples_of fs"
| "samples_of (Some f # fs) = f # samples_of fs"

fun starts_with :: "string \<Rightarrow> string \<Rightarrow> bool" where
  "starts_with [] l = True"
| "starts_with (c # p) [] = False"
| "starts_with (c # p) (d # l) = (c = d \<and> starts_with p l)"

definition is_error_line :: "string \<Rightarrow> bool" where
  "is_error_line l = starts_with ''Error fetching metrics: '' l"

definition is_status_line :: "string \<Rightarrow> bool" where
  "is_status_line l = starts_with ''Catching up, '' l"

text \<open>
  The indicator of an error line is what stands between its last blank and the final
  line feed.
\<close>

definition indicator_length :: "string \<Rightarrow> nat" where
  "indicator_length l = length (takeWhile (\<lambda>c. c \<noteq> CHR '' '') (rev (butlast l)))"

definition error_indicators :: "string list \<Rightarrow> nat list" where
  "error_indicators out = map indicator_length (filter is_error_line out)"

text \<open>
  Whether a poll fails, read off the exchange alone: lines 91, 97, 101 and 137.
\<close>

definition poll_failed :: "text_parser \<Rightarrow> http_exchange \<Rightarrow> bool" where
  "poll_failed TextToMetricFamilies x =
     (case x of
        NewRequestFails err \<Rightarrow> True
      | DoFails err \<Rightarrow> True
      | Responds StatusCode Status Body \<Rightarrow>
          StatusCode \<noteq> 200 \<or> snd (TextToMetricFamilies Body) \<noteq> None)"

subsection \<open>Concrete surroundings for evaluation\<close>

text \<open>
  \<^verbatim>\<open>%q\<close> on a string that needs no escape, a family with one gauge reading, the family
  maps of three kinds of payload, a parser that answers every payload with a given
  result and one that knows the payloads of a table, and the inputs of some iterations.
\<close>

definition plain_quote :: "string \<Rightarrow> string" where
  "plain_quote u = CHR 0x22 # u @ [CHR 0x22]"

definition gauge_family :: "string \<Rightarrow> float64 \<Rightarrow> MetricFamily" where
  "gauge_family n v =
     \<lparr>Family_Name = Some n,
      Family_Metric = [\<lparr>Metric_Gauge = Some \<lparr>Gauge_Value = Some v\<rparr>\<rparr>]\<rparr>"

definition no_families :: "string \<rightharpoonup> MetricFamily" where
  "no_families = Map.empty"

definition known_only :: "float64 \<Rightarrow> (string \<rightharpoonup> MetricFamily)" where
  "known_only k =
     [''highest_known_checkpoint'' \<mapsto> gauge_family ''highest_known_checkpoint'' k]"

definition both_families :: "float64 \<Rightarrow> float64 \<Rightarrow> (string \<rightharpoonup> MetricFamily)" where
  "both_families k v =
     [''highest_known_checkpoint'' \<mapsto> gauge_family ''highest_known_checkpoint'' k,
      ''highest_synced_checkpoint'' \<mapsto> gauge_family ''highest_synced_checkpoint'' v]"

definition fixed_parser :: "(string \<rightharpoonup> MetricFamily) \<times> go_error option \<Rightarrow> text_parser" where
  "fixed_parser r body = r"

definition table_parser :: "(string \<times> (string \<rightharpoonup> MetricFamily)) list \<Rightarrow> text_parser" where
  "table_parser tbl body =
     (case map_of tbl body of
        Some fams \<Rightarrow> (fams, None)
      | None \<Rightarrow> (Map.empty, Some (Errorf ''unexpected end of input stream'')))"

definition response :: "string \<Rightarrow> nat \<Rightarrow> nat \<Rightarrow> nat \<Rightarrow> nat \<Rightarrow> nat \<Rightarrow> loop_input" where
  "response body n0 n1 n2 n3 n4 =
     \<lparr>exchange = Responds 200 ''200 OK'' body, received_after_fetch = n0,
      received_after_line71 = n1, received_within_line72 = n2, received_before_line79 = n3,
      received_during_wait = n4\<rparr>"

definition ok_response :: "nat \<Rightarrow> nat \<Rightarrow> loop_input" where
  "ok_response n m = response [] n 0 0 0 m"

definition refused :: loop_input where
  "refused =
     \<lparr>exchange = DoFails ''connection refused'', received_after_fetch = 0,
      received_after_line71 = 0, received_within_line72 = 0, received_before_line79 = 0,
      received_during_wait = 0\<rparr>"


section \<open>Auxiliary facts\<close>

subsection \<open>Floating point\<close>

text \<open>
  The rounding at work: the exact difference \<open>10\<^sup>1\<^sup>6 - 1\<close> lies between two binary64
  values and goes to the even one; a gap of \<open>2\<^sup>6\<^sup>4\<close> does not fit an \<^verbatim>\<open>int64\<close>.
\<close>

lemmas float_defs =
  round_f64_def quantum_def exponent_def bit_length.simps round_half_even_def Let_def

lemma f64_sub_rounds_to_even:
  "f64_sub (Finite 10000000000000000) (Finite 1) = Finite 10000000000000000"
  by (simp add: float_defs)

lemma int64_of_float64_out_of_range:
  "int64_of_float64 (Finite (2 ^ 64)) = - (2 ^ 63)"
  by (simp add: trunc_def)

lemma f64_sub_zero: "is_binary64 a \<Longrightarrow> f64_sub a (Finite 0) = a"
  by (cases a) (simp_all add: is_binary64_def)

lemma is_binary64_zero: "is_binary64 (Finite 0)"
  by (simp add: is_binary64_def round_f64_def)

subsection \<open>The channel\<close>

lemma chan_send_fields [simp]:
  "metric_channel (chan_send f s) = metric_channel s @ [f]"
  "highest_known_checkpoint (chan_send f s) = highest_known_checkpoint s"
  "highest_synced_checkpoint (chan_send f s) = highest_synced_checkpoint s"
  "last_delta (chan_send f s) = last_delta s"
  "writer (chan_send f s) = writer s"
  by (simp_all add: chan_send_def)

lemma Fprintf_fields [simp]:
  "metric_channel (Fprintf l s) = metric_channel s"
  "highest_known_checkpoint (Fprintf l s) = highest_known_checkpoint s"
  "highest_synced_checkpoint (Fprintf l s) = highest_synced_checkpoint s"
  "last_delta (Fprintf l s) = last_delta s"
  "writer (Fprintf l s) = writer s @ [l]"
  by (simp_all add: Fprintf_def)

lemma parseReader_valid:
  "P body = (fams, None) \<Longrightarrow>
   parseReader P body s =
     (None, s\<lparr>metric_channel := metric_channel s
        @ [fams ''highest_known_checkpoint'', fams ''highest_synced_checkpoint'']\<rparr>)"
  by (simp add: parseReader_def chan_send_def)

lemma parseReader_invalid:
  "P body = (fams, Some e) \<Longrightarrow>
   parseReader P body s = (Some (Errorf (''reading text format failed: '' @ error_text e)), s)"
  by (simp add: parseReader_def)

lemma parseResponse_eq: "parseResponse P body s = parseReader P body s"
  by (simp add: parseResponse_def split: prod.splits option.splits)

lemma store_family_fields:
  "store_family f s = Inr s' \<Longrightarrow>
     metric_channel s' = metric_channel s \<and> last_delta s' = last_delta s \<and> writer s' = writer s"
  by (auto simp: store_family_def split: if_splits sum.splits)

lemma store_family_nil: "store_family None s = Inr s"
  by (simp add: store_family_def GetName_def)

lemma report_status_channel:
  "report_status iv s = Inr s' \<Longrightarrow> metric_channel s' = metric_channel s"
  by (auto simp: report_status_def Let_def split: if_splits sum.splits)

lemma report_status_values:
  "report_status iv s = Inr s' \<Longrightarrow>
     highest_known_checkpoint s' = highest_known_checkpoint s
     \<and> highest_synced_checkpoint s' = highest_synced_checkpoint s"
  by (auto simp: report_status_def Let_def split: if_splits sum.splits)

lemma monitor_body_channel:
  "monitor_body iv f s = Inr s' \<Longrightarrow> metric_channel s' = metric_channel s"
  unfolding monitor_body_def
  by (cases "store_family f s") (simp_all add: store_family_fields report_status_channel)

text \<open>A receive takes the head of the queue: after \<open>n\<close> receives the first \<open>n\<close> entries are gone.\<close>

lemma monitorChannel_takes_front:
  "monitorChannel iv n s = Inr s' \<Longrightarrow> metric_channel s' = drop n (metric_channel s)"
proof (induction n arbitrary: s)
  case 0
  then show ?case by simp
next
  case (Suc n)
  show ?case
  proof (cases "metric_channel s")
    case Nil
    with Suc.prems show ?thesis by simp
  next
    case (Cons f rest)
    with Suc.prems obtain t where
      body: "monitor_body iv f (s\<lparr>metric_channel := rest\<rparr>) = Inr t" and
      run: "monitorChannel iv n t = Inr s'"
      by (auto split: sum.splits)
    from monitor_body_channel [OF body] have "metric_channel t = rest" by simp
    with Suc.IH [OF run] Cons show ?thesis by simp
  qed
qed

lemma monitorChannel_once:
  "monitorChannel iv 1 (s\<lparr>metric_channel := f # rest\<rparr>)
     = monitor_body iv f (s\<lparr>metric_channel := rest\<rparr>)"
  by (cases "monitor_body iv f (s\<lparr>metric_channel := rest\<rparr>)") simp_all

lemma monitorChannel_empty: "metric_channel s = [] \<Longrightarrow> monitorChannel iv n s = Inr s"
  by (cases n) simp_all

lemma monitorChannel_none [simp]: "monitorChannel iv 0 s = Inr s"
  by simp

lemma first_gauge_value_reading:
  "Family_Metric f = m # ms \<Longrightarrow> Metric_Gauge m = Some g \<Longrightarrow> Gauge_Value g = Some v \<Longrightarrow>
   first_gauge_value (Some f) = Inr v"
  by (simp add: first_gauge_value_def GetMetric_def GetGauge_def GetValue_def)

subsection \<open>The integer arithmetic of the status line\<close>

lemma wrap64_id: "- (2 ^ 63) \<le> i \<Longrightarrow> i < 2 ^ 63 \<Longrightarrow> wrap64 i = i"
  by (simp add: wrap64_def)





lemma quo64_defined:
  assumes "0 < b" "b < 2 ^ 63"
  shows "\<exists>n. quo64 a (wrap64 b) = Inr n"
proof -
  have "wrap64 b = b" using assms by (simp add: wrap64_id)
  with assms(1) show ?thesis by (simp add: quo64_def)
qed



text \<open>
  The number of the rate text, as lines 124 and 126 compute it.
\<close>

lemma rate_text_number:
  assumes "(if f64_lt_zero rate then quo64 (neg64 (int64_of_float64 rate)) (wrap64 iv)
            else quo64 (int64_of_float64 rate) (wrap64 iv)) = Inr n"
  shows "rate_text iv rate =
           Inr ((if f64_lt_zero rate then ''catching up at '' else ''falling behind at '')
                @ fmt_d n @ ''/s'')"
  using assms by (cases "f64_lt_zero rate") (simp_all add: rate_text_def)

lemma rate_number_defined:
  assumes "0 < iv" "iv < 2 ^ 63"
  shows "\<exists>n. (if f64_lt_zero rate then quo64 (neg64 (int64_of_float64 rate)) (wrap64 iv)
              else quo64 (int64_of_float64 rate) (wrap64 iv)) = Inr n"
  using quo64_defined [OF assms] by simp





subsection \<open>Whole numbers as binary64 values\<close>

text \<open>
  \<open>bit_length n\<close> is the number of binary digits of \<open>n\<close>, so \<open>exponent\<close> is the binary
  exponent; whole numbers below \<open>2\<^sup>5\<^sup>3\<close> are binary64 values, and a difference
  of that size is exact.
\<close>

lemma bit_length_bounds:
  "0 < n \<Longrightarrow> 2 ^ (bit_length n - 1) \<le> n \<and> n < 2 ^ bit_length n"
proof (induction n rule: bit_length.induct)
  case (1 n)
  show ?case
  proof (cases "n div 2 = 0")
    case True
    with "1.prems" have "n = 1" by (simp add: div_eq_0_iff)
    then show ?thesis by (simp add: bit_length.simps)
  next
    case False
    then have pos: "0 < n div 2" by simp
    from "1.IH" "1.prems" pos have ih: "2 ^ (bit_length (n div 2) - 1) \<le> n div 2" "n div 2 < 2 ^ bit_length (n div 2)"
      by simp_all
    have bl: "bit_length n = Suc (bit_length (n div 2))"
      using "1.prems" by (subst bit_length.simps) simp
    have blpos: "0 < bit_length (n div 2)"
      using pos by (subst bit_length.simps) simp
    then obtain b where b: "bit_length (n div 2) = Suc b" by (cases "bit_length (n div 2)") simp_all
    from ih b have "2 ^ b \<le> n div 2" "n div 2 < 2 ^ Suc b" by simp_all
    then have "2 * 2 ^ b \<le> n" "n < 2 * 2 ^ Suc b" by linarith+
    then show ?thesis unfolding bl b by simp
  qed
qed

lemma round_half_even_of_int: "round_half_even (of_int j) = j"
  by (simp add: round_half_even_def)

lemma exponent_small_int:
  assumes "m \<noteq> 0" "\<bar>m\<bar> < 2 ^ 53"
  shows "0 \<le> exponent (of_int m) \<and> exponent (of_int m) \<le> 52"
proof -
  define n where "n = nat \<bar>m\<bar>"
  have n: "0 < n" using assms(1) by (simp add: n_def)
  have "int n < 2 ^ 53" using assms(2) by (simp add: n_def)
  then have "int n < int (2 ^ 53)" by simp
  then have n2: "n < 2 ^ 53" by (simp only: of_nat_less_iff)
  have one: "1 \<le> \<bar>real_of_int m\<bar>" using assms(1) by (simp flip: of_int_abs)
  have fl: "nat \<lfloor>\<bar>real_of_int m\<bar>\<rfloor> = n" by (simp add: n_def flip: of_int_abs)
  have e: "exponent (of_int m) = int (bit_length n) - 1"
    using one fl by (simp add: exponent_def)
  from bit_length_bounds [OF n] have lo: "(2::nat) ^ (bit_length n - 1) \<le> n" by simp
  from lo n2 have "(2::nat) ^ (bit_length n - 1) < 2 ^ 53" by (rule le_less_trans)
  then have "bit_length n - 1 < 53" by (rule power_less_imp_less_exp [rotated]) simp
  moreover have "0 < bit_length n" using n by (subst bit_length.simps) simp
  ultimately show ?thesis unfolding e by linarith
qed

lemma round_f64_small_int:
  assumes "\<bar>m\<bar> < 2 ^ 53"
  shows "round_f64 (of_int m) = Finite (of_int m)"
proof (cases "m = 0")
  case True
  then show ?thesis by (simp add: round_f64_def)
next
  case False
  note eb = exponent_small_int [OF False assms]
  define k where "k = nat (52 - exponent (of_int m))"
  have k: "exponent (of_int m) - 52 = - int k" using eb by (simp add: k_def)
  have mx: "max (exponent (of_int m)) (- 1022) = exponent (of_int m)"
    using eb by simp
  have q: "quantum (of_int m) = 1 / 2 ^ k"
    unfolding quantum_def mx k by (simp add: power_int_minus_divide)
  have d: "real_of_int m / quantum (of_int m) = of_int (m * 2 ^ k)"
    unfolding q by simp
  have "round_half_even (real_of_int m / quantum (of_int m)) = m * 2 ^ k"
    by (simp only: d round_half_even_of_int)
  then have "of_int (round_half_even (real_of_int m / quantum (of_int m))) * quantum (of_int m)
               = real_of_int (m * 2 ^ k) * (1 / 2 ^ k)"
    by (simp only: q)
  then have r: "of_int (round_half_even (real_of_int m / quantum (of_int m))) * quantum (of_int m)
                 = real_of_int m"
    by simp
  have "\<bar>real_of_int m\<bar> = of_int \<bar>m\<bar>" by simp
  also have "\<dots> < of_int (2 ^ 53)" using assms by (simp only: of_int_less_iff)
  also have "\<dots> = (2::real) ^ 53" by simp
  also have "\<dots> \<le> (2::real) ^ 1024" by (rule power_increasing) simp_all
  finally have small: "\<not> 2 ^ 1024 \<le> \<bar>real_of_int m\<bar>" by (simp only: not_le)
  have nz: "real_of_int m \<noteq> 0" using False by simp
  show ?thesis
    unfolding round_f64_def Let_def r using nz small by (simp only: if_False)
qed


lemma is_binary64_small_int: "\<bar>m\<bar> < 2 ^ 53 \<Longrightarrow> is_binary64 (Finite (of_int m))"
  by (simp add: is_binary64_def round_f64_small_int)


text \<open>The exponent brackets the magnitude between two powers of two.\<close>

lemma bit_length_pos: "0 < n \<Longrightarrow> 0 < bit_length n"
  by (subst bit_length.simps) simp

lemma exponent_bounds:
  assumes "x \<noteq> 0"
  shows "2 powi exponent x \<le> \<bar>x\<bar> \<and> \<bar>x\<bar> < 2 powi (exponent x + 1)"
proof (cases "1 \<le> \<bar>x\<bar>")
  case True
  define n where "n = nat \<lfloor>\<bar>x\<bar>\<rfloor>"
  have fl: "1 \<le> \<lfloor>\<bar>x\<bar>\<rfloor>" using True by linarith
  then have n: "0 < n" and rn: "real n = of_int \<lfloor>\<bar>x\<bar>\<rfloor>" by (simp_all add: n_def)
  obtain b where b: "bit_length n = Suc b"
    using bit_length_pos [OF n] by (cases "bit_length n") simp_all
  from bit_length_bounds [OF n] b have "2 ^ b \<le> n" "n < 2 ^ Suc b" by simp_all
  then have "2 ^ b \<le> n" "Suc n \<le> 2 ^ Suc b" by simp_all
  then have "real (2 ^ b) \<le> real n" "real (Suc n) \<le> real (2 ^ Suc b)"
    by (simp_all only: of_nat_le_iff)
  then have lo: "(2::real) ^ b \<le> real n" and hi: "real n + 1 \<le> 2 ^ Suc b" by simp_all
  have "real n \<le> \<bar>x\<bar>" "\<bar>x\<bar> < real n + 1" unfolding rn by linarith+
  with lo hi have "(2::real) ^ b \<le> \<bar>x\<bar>" "\<bar>x\<bar> < 2 ^ Suc b" by linarith+
  moreover have "exponent x = int b" using True b by (simp add: exponent_def n_def)
  moreover have "int b + 1 = int (Suc b)" by simp
  ultimately show ?thesis by (simp only: power_int_of_nat)
next
  case False
  define y where "y = 1 / \<bar>x\<bar>"
  have xpos: "0 < \<bar>x\<bar>" using assms by simp
  have y1: "1 < y" using False xpos by (simp add: y_def)
  define n where "n = nat (\<lceil>y\<rceil> - 1)"
  have c: "2 \<le> \<lceil>y\<rceil>" using y1 by linarith
  then have n: "0 < n" and rn: "real n = of_int \<lceil>y\<rceil> - 1" by (simp_all add: n_def)
  obtain b where b: "bit_length n = Suc b"
    using bit_length_pos [OF n] by (cases "bit_length n") simp_all
  from bit_length_bounds [OF n] b have "2 ^ b \<le> n" "n < 2 ^ Suc b" by simp_all
  then have "2 ^ b \<le> n" "Suc n \<le> 2 ^ Suc b" by simp_all
  then have "real (2 ^ b) \<le> real n" "real (Suc n) \<le> real (2 ^ Suc b)"
    by (simp_all only: of_nat_le_iff)
  then have lo: "(2::real) ^ b \<le> real n" and hi: "real n + 1 \<le> 2 ^ Suc b" by simp_all
  have "real n < y" "y \<le> real n + 1" unfolding rn by linarith+
  with lo hi have ylo: "(2::real) ^ b < y" and yhi: "y \<le> 2 ^ Suc b" by linarith+
  have x: "\<bar>x\<bar> = 1 / y" using xpos by (simp add: y_def)
  have ypos: "0 < y" using y1 by simp
  have "1 / 2 ^ Suc b \<le> 1 / y" using yhi ypos by (simp add: frac_le)
  moreover have "1 / y < 1 / (2::real) ^ b" using ylo by (simp add: frac_less2)
  moreover have "exponent x = - int (Suc b)" using False b by (simp add: exponent_def n_def y_def)
  moreover have "(2::real) powi (- int (Suc b)) = 1 / 2 ^ Suc b"
    by (simp only: power_int_minus power_int_of_nat inverse_eq_divide)
  moreover have "- int (Suc b) + 1 = - int b" by simp
  moreover have "(2::real) powi (- int b) = 1 / 2 ^ b"
    by (simp only: power_int_minus power_int_of_nat inverse_eq_divide)
  ultimately show ?thesis unfolding x by (simp only:)
qed


subsection \<open>The lines on the writer\<close>

lemma indicator_replicate: "indicator n = replicate n (CHR ''.'')"
  by (induction n) (simp_all add: replicate_append_same)

lemma starts_with_append: "starts_with p (p @ l)"
  by (induction p) simp_all

lemma error_line_is_error_line:
  "is_error_line (''Error fetching metrics: '' @ t)"
  unfolding is_error_line_def by (rule starts_with_append)

lemma status_line_not_error: "is_status_line l \<Longrightarrow> \<not> is_error_line l"
  by (cases l) (auto simp: is_status_line_def is_error_line_def)

lemma status_line_not_caught_up: "is_status_line l \<Longrightarrow> l \<noteq> ''Node caught up\<newline>''"
  by (cases l) (auto simp: is_status_line_def)

lemma error_line_not_caught_up: "is_error_line l \<Longrightarrow> l \<noteq> ''Node caught up\<newline>''"
  by (cases l) (auto simp: is_error_line_def)

lemma caught_up_not_error: "\<not> is_error_line ''Node caught up\<newline>''"
  by (simp add: is_error_line_def)

lemma indicator_length_error_line:
  "indicator_length (''Error fetching metrics: '' @ t @ '' '' @ indicator n @ ''\<newline>'') = n"
proof -
  have "butlast (''Error fetching metrics: '' @ t @ '' '' @ indicator n @ ''\<newline>'')
          = (''Error fetching metrics: '' @ t @ '' '') @ indicator n"
    by (simp add: butlast_append)
  then have "rev (butlast (''Error fetching metrics: '' @ t @ '' '' @ indicator n @ ''\<newline>''))
          = replicate n (CHR ''.'') @ CHR '' '' # rev (''Error fetching metrics: '' @ t)"
    by (simp add: indicator_replicate)
  then show ?thesis
    unfolding indicator_length_def by (simp add: takeWhile_tail)
qed

lemma report_status_writer:
  "report_status iv s = Inr s' \<Longrightarrow>
     writer s' = writer s \<or> (\<exists>l. writer s' = writer s @ [l] \<and> is_status_line l)"
  by (auto simp: report_status_def Let_def is_status_line_def split: if_splits sum.splits)

lemma monitor_body_writer:
  assumes "monitor_body iv f s = Inr s'"
  shows "writer s' = writer s \<or> (\<exists>l. writer s' = writer s @ [l] \<and> is_status_line l)"
proof -
  from assms obtain t where t: "store_family f s = Inr t" and r: "report_status iv t = Inr s'"
    unfolding monitor_body_def by (cases "store_family f s") simp_all
  from store_family_fields [OF t] report_status_writer [OF r] show ?thesis by simp
qed

text \<open>The step of lines 117 to 130 on a state: nothing, or the gap stored and one line.\<close>

lemma report_status_idle:
  "\<not> (f64_nonzero (highest_known_checkpoint s) \<and> f64_nonzero (highest_synced_checkpoint s)) \<Longrightarrow>
     report_status iv s = Inr s"
  by (auto simp: report_status_def)

lemma report_status_line:
  assumes "f64_nonzero (highest_known_checkpoint s)" "f64_nonzero (highest_synced_checkpoint s)"
      and "0 < iv" "iv < 2 ^ 63"
  shows "\<exists>l. report_status iv s =
              Inr (s\<lparr>last_delta := f64_sub (highest_known_checkpoint s) (highest_synced_checkpoint s),
                      writer := writer s @ [l]\<rparr>)
            \<and> is_status_line l"
proof -
  let ?delta = "f64_sub (highest_known_checkpoint s) (highest_synced_checkpoint s)"
  let ?rate = "f64_sub ?delta (last_delta s)"
  from rate_number_defined [OF assms(3,4), of ?rate] obtain n where
    "(if f64_lt_zero ?rate then quo64 (neg64 (int64_of_float64 ?rate)) (wrap64 iv)
      else quo64 (int64_of_float64 ?rate) (wrap64 iv)) = Inr n"
    by blast
  note n = rate_text_number [OF this]
  define l where
    "l = ''Catching up, '' @ fmt_d (int64_of_float64 ?delta) @ '' checkpoints behind (''
           @ ((if f64_lt_zero ?rate then ''catching up at '' else ''falling behind at '')
              @ fmt_d n @ ''/s'') @ '')\<newline>''"
  have "report_status iv s = Inr (s\<lparr>last_delta := ?delta, writer := writer s @ [l]\<rparr>)"
    using assms(1,2) unfolding report_status_def Let_def n l_def by (simp add: Fprintf_def)
  moreover have "is_status_line l"
    by (simp add: l_def is_status_line_def)
  ultimately show ?thesis by blast
qed

lemma monitorChannel_writer:
  "monitorChannel iv n s = Inr s' \<Longrightarrow>
     \<exists>ls. writer s' = writer s @ ls \<and> (\<forall>l\<in>set ls. is_status_line l)"
proof (induction n arbitrary: s)
  case 0
  then show ?case by simp
next
  case (Suc n)
  show ?case
  proof (cases "metric_channel s")
    case Nil
    with Suc.prems show ?thesis by simp
  next
    case (Cons f rest)
    with Suc.prems obtain t where
      body: "monitor_body iv f (s\<lparr>metric_channel := rest\<rparr>) = Inr t" and
      run: "monitorChannel iv n t = Inr s'"
      by (auto split: sum.splits)
    from monitor_body_writer [OF body] obtain l1 where
      l1: "writer t = writer s @ l1" "\<forall>l\<in>set l1. is_status_line l"
      by fastforce
    from Suc.IH [OF run] obtain l2 where
      l2: "writer s' = writer t @ l2" "\<forall>l\<in>set l2. is_status_line l"
      by blast
    from l1 l2 have "writer s' = writer s @ (l1 @ l2) \<and> (\<forall>l\<in>set (l1 @ l2). is_status_line l)"
      by auto
    then show ?thesis by blast
  qed
qed

lemma status_lines_no_indicators:
  "\<forall>l\<in>set ls. is_status_line l \<Longrightarrow> error_indicators (out @ ls) = error_indicators out"
  by (simp add: error_indicators_def status_line_not_error)

lemma status_lines_no_caught_up:
  "\<forall>l\<in>set ls. is_status_line l \<Longrightarrow>
     count_list (out @ ls) ''Node caught up\<newline>'' = count_list out ''Node caught up\<newline>''"
  using status_line_not_caught_up by (induction ls rule: rev_induct) (auto simp flip: append_assoc)

lemma monitorChannel_indicators:
  "monitorChannel iv n s = Inr s' \<Longrightarrow> error_indicators (writer s') = error_indicators (writer s)"
  using monitorChannel_writer status_lines_no_indicators by metis

lemma monitorChannel_caught_up:
  "monitorChannel iv n s = Inr s' \<Longrightarrow>
     count_list (writer s') ''Node caught up\<newline>'' = count_list (writer s) ''Node caught up\<newline>''"
  using monitorChannel_writer status_lines_no_caught_up by metis

lemma fetch_failed:
  "poll_failed P x \<Longrightarrow> \<exists>e. fetchMetricFamilies q P url x s = (Some e, s)"
  by (cases x; cases "P (case x of Responds c st b \<Rightarrow> b | _ \<Rightarrow> [])")
     (auto simp: poll_failed_def fetchMetricFamilies_def parseResponse_eq parseReader_def)

lemma fetch_succeeded:
  "\<not> poll_failed P x \<Longrightarrow>
     \<exists>st body fams. x = Responds 200 st body \<and> P body = (fams, None) \<and>
       fetchMetricFamilies q P url x s =
         (None, s\<lparr>metric_channel := metric_channel s
            @ [fams ''highest_known_checkpoint'', fams ''highest_synced_checkpoint'']\<rparr>)"
  by (cases x; cases "P (case x of Responds c st b \<Rightarrow> b | _ \<Rightarrow> [])")
     (auto simp: poll_failed_def fetchMetricFamilies_def parseResponse_eq parseReader_def chan_send_def)

subsection \<open>One poll and one pass through the loop\<close>

lemma wait_for_tick_cases:
  "(\<exists>p. wait_for_tick iv i e s = Crash p)
   \<or> (\<exists>s'. wait_for_tick iv i e s = Continue e s'
          \<and> error_indicators (writer s') = error_indicators (writer s)
          \<and> count_list (writer s') ''Node caught up\<newline>''
              = count_list (writer s) ''Node caught up\<newline>'')"
proof (cases "monitorChannel iv (received_during_wait i) s")
  case (Inl p)
  then show ?thesis by (simp add: wait_for_tick_def)
next
  case (Inr s')
  then have "wait_for_tick iv i e s = Continue e s'" by (simp add: wait_for_tick_def)
  with monitorChannel_indicators [OF Inr] monitorChannel_caught_up [OF Inr]
  show ?thesis by blast
qed

lemma main_iteration_failed:
  assumes failed: "poll_failed P (exchange i)"
  shows "(\<exists>p. main_iteration q P iv url i errors s = Crash p)
         \<or> (\<exists>s'. main_iteration q P iv url i errors s = Continue (Suc errors) s'
               \<and> error_indicators (writer s') = error_indicators (writer s) @ [Suc errors]
               \<and> count_list (writer s') ''Node caught up\<newline>''
                   = count_list (writer s) ''Node caught up\<newline>'')"
proof -
  from fetch_failed [OF failed] obtain e where
    fetch: "fetchMetricFamilies q P url (exchange i) s = (Some e, s)" by blast
  show ?thesis
  proof (cases "monitorChannel iv (received_after_fetch i) s")
    case (Inl p)
    with fetch show ?thesis by (simp add: main_iteration_def)
  next
    case (Inr s2)
    define line where "line = ''Error fetching metrics: '' @ error_text e @ '' '' @ indicator (Suc errors) @ ''\<newline>''"
    have line_err: "is_error_line line"
      unfolding line_def by (rule error_line_is_error_line)
    have line_len: "indicator_length line = Suc errors"
      unfolding line_def by (rule indicator_length_error_line)
    have w3: "error_indicators (writer (Fprintf line s2)) = error_indicators (writer s) @ [Suc errors]"
      using monitorChannel_indicators [OF Inr] line_err line_len
      by (simp add: error_indicators_def)
    have c3: "count_list (writer (Fprintf line s2)) ''Node caught up\<newline>''
                = count_list (writer s) ''Node caught up\<newline>''"
      using monitorChannel_caught_up [OF Inr] error_line_not_caught_up [OF line_err]
      by simp
    have it: "main_iteration q P iv url i errors s = wait_for_tick iv i (Suc errors) (Fprintf line s2)"
      using fetch Inr by (simp add: main_iteration_def line_def Let_def)
    from wait_for_tick_cases [of iv i "Suc errors" "Fprintf line s2"] show ?thesis
      unfolding it w3 c3 by blast
  qed
qed

lemma main_iteration_succeeded:
  assumes ok: "\<not> poll_failed P (exchange i)"
  shows "(\<exists>p. main_iteration q P iv url i errors s = Crash p)
         \<or> (\<exists>s'. (main_iteration q P iv url i errors s = Continue errors s'
                   \<or> main_iteration q P iv url i errors s = Break errors s')
               \<and> error_indicators (writer s') = error_indicators (writer s)
               \<and> count_list (writer s') ''Node caught up\<newline>''
                   = count_list (writer s) ''Node caught up\<newline>'')"
proof -
  from fetch_succeeded [OF ok] obtain s1 where
    fetch: "fetchMetricFamilies q P url (exchange i) s = (None, s1)" and
    w1: "writer s1 = writer s"
    by fastforce
  show ?thesis
  proof (cases "monitorChannel iv (received_after_fetch i) s1")
    case (Inl p)
    with fetch show ?thesis by (simp add: main_iteration_def)
  next
    case (Inr s2)
    have i2: "error_indicators (writer s2) = error_indicators (writer s)"
      using monitorChannel_indicators [OF Inr] w1 by simp
    have c2: "count_list (writer s2) ''Node caught up\<newline>''
                = count_list (writer s) ''Node caught up\<newline>''"
      using monitorChannel_caught_up [OF Inr] w1 by simp
    show ?thesis
    proof (cases "f64_nonzero (highest_known_checkpoint s2)")
      case False
      then have it: "main_iteration q P iv url i errors s = wait_for_tick iv i errors s2"
        using fetch Inr by (simp add: main_iteration_def)
      from wait_for_tick_cases [of iv i errors s2] show ?thesis
        unfolding it i2 c2 by blast
    next
      case True
      show ?thesis
      proof (cases "monitorChannel iv (received_after_line71 i) s2")
        case (Inl p)
        with fetch Inr True show ?thesis by (simp add: main_iteration_def)
      next
        case s3: (Inr s3)
        have i3: "error_indicators (writer s3) = error_indicators (writer s)"
          using monitorChannel_indicators [OF s3] i2 by simp
        have c3: "count_list (writer s3) ''Node caught up\<newline>''
                = count_list (writer s) ''Node caught up\<newline>''"
          using monitorChannel_caught_up [OF s3] c2 by simp
        show ?thesis
        proof (cases "monitorChannel iv (received_within_line72 i) s3")
          case (Inl p)
          with fetch Inr True s3 show ?thesis by (simp add: main_iteration_def)
        next
          case s4: (Inr s4)
          have i4: "error_indicators (writer s4) = error_indicators (writer s)"
            using monitorChannel_indicators [OF s4] i3 by simp
          have c4: "count_list (writer s4) ''Node caught up\<newline>''
                = count_list (writer s) ''Node caught up\<newline>''"
            using monitorChannel_caught_up [OF s4] c3 by simp
          show ?thesis
          proof (cases "f64_le_zero (f64_sub (highest_known_checkpoint s3) (highest_synced_checkpoint s4))")
            case le: True
            then have "main_iteration q P iv url i errors s = Break errors s4"
              using fetch Inr True s3 s4 by (simp add: main_iteration_def)
            with i4 c4 show ?thesis by blast
          next
            case gt: False
            then have it: "main_iteration q P iv url i errors s = wait_for_tick iv i errors s4"
              using fetch Inr True s3 s4 by (simp add: main_iteration_def)
            from wait_for_tick_cases [of iv i errors s4] show ?thesis
              unfolding it i4 c4 by blast
          qed
        qed
      qed
    qed
  qed
qed

lemma main_loop_not_Fatal: "main_loop q P iv url inputs errors s \<noteq> Fatal m"
proof (induction inputs arbitrary: errors s)
  case Nil
  then show ?case by simp
next
  case (Cons i inputs)
  then show ?case
    by (cases "main_iteration q P iv url i errors s") (simp_all split: sum.splits)
qed

lemma main_loop_append:
  "main_loop q P iv url pre e0 s0 = StillPolling e s \<Longrightarrow>
   main_loop q P iv url (pre @ rest) e0 s0 = main_loop q P iv url rest e s"
proof (induction pre arbitrary: e0 s0)
  case Nil
  then show ?case by simp
next
  case (Cons i pre)
  then show ?case
    by (cases "main_iteration q P iv url i e0 s0") (simp_all split: sum.splits)
qed

text \<open>Leaving the loop: the final message is written when line 79 loads a non-zero value.\<close>

lemma after_loop_writer:
  "writer (after_loop s) =
     (if f64_nonzero (highest_known_checkpoint s) then writer s @ [''Node caught up\<newline>'']
      else writer s)"
  by (simp add: after_loop_def)

lemma after_loop_known [simp]:
  "highest_known_checkpoint (after_loop s) = highest_known_checkpoint s"
  by (simp add: after_loop_def)


text \<open>
  The invariant of the loop: the counter is the number of failed polls so far, the error
  lines written so far carry the indicators \<open>1, 2, \<dots>\<close> up to the counter, and the final
  message is written on the way out, when line 79 loads a non-zero value, and nowhere else.
\<close>

lemma main_loop_run:
  assumes "main_loop q P iv url inputs e0 s0 = out"
      and "out = StillPolling e s \<or> out = Exited e s"
  shows "\<exists>k\<le>length inputs.
           e = e0 + length (filter (\<lambda>i. poll_failed P (exchange i)) (take k inputs))
         \<and> error_indicators (writer s) = error_indicators (writer s0) @ [Suc e0..<Suc e]
         \<and> (out = StillPolling e s \<longrightarrow> k = length inputs
              \<and> count_list (writer s) ''Node caught up\<newline>''
                  = count_list (writer s0) ''Node caught up\<newline>'')
         \<and> (out = Exited e s \<longrightarrow>
              0 < k
              \<and> (\<exists>s'. main_loop q P iv url (take (k - 1) inputs) e0 s0 = StillPolling e s')
              \<and> count_list (writer s) ''Node caught up\<newline>''
                = count_list (writer s0) ''Node caught up\<newline>''
                  + (if f64_nonzero (highest_known_checkpoint s) then 1 else 0))"
  using assms
proof (induction inputs arbitrary: e0 s0)
  case Nil
  then show ?case by auto
next
  case (Cons i inputs)
  have no_crash: "main_iteration q P iv url i e0 s0 \<noteq> Crash p" for p
  proof
    assume "main_iteration q P iv url i e0 s0 = Crash p"
    then have "main_loop q P iv url (i # inputs) e0 s0 = Panicked p" by simp
    with Cons.prems show False by auto
  qed
  have step: ?case
    if it: "main_iteration q P iv url i e0 s0 = Continue e1 s1"
    and cnt1: "e1 = e0 + length (filter (\<lambda>i. poll_failed P (exchange i)) [i])"
    and ind: "error_indicators (writer s1) = error_indicators (writer s0) @ [Suc e0..<Suc e1]"
    and cnt: "count_list (writer s1) ''Node caught up\<newline>''
                   = count_list (writer s0) ''Node caught up\<newline>''"
    for e1 s1
  proof -
    from it Cons.prems(1) have run: "main_loop q P iv url inputs e1 s1 = out" by simp
    from Cons.IH [OF run Cons.prems(2)] obtain k where
      k1: "k \<le> length inputs" and
      k2: "e = e1 + length (filter (\<lambda>i. poll_failed P (exchange i)) (take k inputs))" and
      k3: "error_indicators (writer s) = error_indicators (writer s1) @ [Suc e1..<Suc e]" and
      k4: "out = StillPolling e s \<longrightarrow> k = length inputs
              \<and> count_list (writer s) ''Node caught up\<newline>''
                  = count_list (writer s1) ''Node caught up\<newline>''" and
      k5: "out = Exited e s \<longrightarrow>
              0 < k
              \<and> (\<exists>s'. main_loop q P iv url (take (k - 1) inputs) e1 s1 = StillPolling e s')
              \<and> count_list (writer s) ''Node caught up\<newline>''
                = count_list (writer s1) ''Node caught up\<newline>''
                  + (if f64_nonzero (highest_known_checkpoint s) then 1 else 0)"
      by (elim exE conjE)
    have le: "e0 \<le> e1" "e1 \<le> e" using cnt1 k2 by simp_all
    have a: "Suc k \<le> length (i # inputs)" using k1 by simp
    have b: "e = e0 + length (filter (\<lambda>i. poll_failed P (exchange i)) (take (Suc k) (i # inputs)))"
      using k2 cnt1 by simp
    have "[Suc e0..<Suc e] = [Suc e0..<Suc e1] @ [Suc e1..<Suc e]"
      using le upt_add_eq_append [of "Suc e0" "Suc e1" "e - e1"] by simp
    then have c: "error_indicators (writer s) = error_indicators (writer s0) @ [Suc e0..<Suc e]"
      unfolding k3 ind by simp
    have d: "out = StillPolling e s \<longrightarrow> Suc k = length (i # inputs)
              \<and> count_list (writer s) ''Node caught up\<newline>''
                  = count_list (writer s0) ''Node caught up\<newline>''"
      using k4 cnt by simp
    have e: "out = Exited e s \<longrightarrow>
              0 < Suc k
              \<and> (\<exists>s'. main_loop q P iv url (take (Suc k - 1) (i # inputs)) e0 s0 = StillPolling e s')
              \<and> count_list (writer s) ''Node caught up\<newline>''
                = count_list (writer s0) ''Node caught up\<newline>''
                  + (if f64_nonzero (highest_known_checkpoint s) then 1 else 0)"
    proof
      assume ex: "out = Exited e s"
      with k5 obtain s' where
        pos: "0 < k" and
        pre: "main_loop q P iv url (take (k - 1) inputs) e1 s1 = StillPolling e s'" and
        c5: "count_list (writer s) ''Node caught up\<newline>''
                = count_list (writer s1) ''Node caught up\<newline>''
                  + (if f64_nonzero (highest_known_checkpoint s) then 1 else 0)"
        by blast
      from pos have "take (Suc k - 1) (i # inputs) = i # take (k - 1) inputs"
        by (cases k) simp_all
      with it pre have "main_loop q P iv url (take (Suc k - 1) (i # inputs)) e0 s0 = StillPolling e s'"
        by simp
      with c5 cnt show "0 < Suc k
              \<and> (\<exists>s'. main_loop q P iv url (take (Suc k - 1) (i # inputs)) e0 s0 = StillPolling e s')
              \<and> count_list (writer s) ''Node caught up\<newline>''
                = count_list (writer s0) ''Node caught up\<newline>''
                  + (if f64_nonzero (highest_known_checkpoint s) then 1 else 0)"
        by auto
    qed
    from a b c d e show ?thesis by blast
  qed
  show ?case
  proof (cases "poll_failed P (exchange i)")
    case True
    from main_iteration_failed [OF True, of q iv url e0 s0] no_crash
    obtain s1 where
      it: "main_iteration q P iv url i e0 s0 = Continue (Suc e0) s1" and
      ind: "error_indicators (writer s1) = error_indicators (writer s0) @ [Suc e0]" and
      cnt: "count_list (writer s1) ''Node caught up\<newline>''
                   = count_list (writer s0) ''Node caught up\<newline>''"
      by blast
    have cnt1: "Suc e0 = e0 + length (filter (\<lambda>i. poll_failed P (exchange i)) [i])"
      using True by simp
    have ind': "error_indicators (writer s1) = error_indicators (writer s0) @ [Suc e0..<Suc (Suc e0)]"
      using ind by simp
    from step [OF it cnt1 ind' cnt] show ?thesis .
  next
    case False
    from main_iteration_succeeded [OF False, of q iv url e0 s0] no_crash
    obtain s1 where
      it: "main_iteration q P iv url i e0 s0 = Continue e0 s1
           \<or> main_iteration q P iv url i e0 s0 = Break e0 s1" and
      ind: "error_indicators (writer s1) = error_indicators (writer s0)" and
      cnt: "count_list (writer s1) ''Node caught up\<newline>''
                   = count_list (writer s0) ''Node caught up\<newline>''"
      by blast
    from it show ?thesis
    proof
      assume c: "main_iteration q P iv url i e0 s0 = Continue e0 s1"
      have cnt1: "e0 = e0 + length (filter (\<lambda>i. poll_failed P (exchange i)) [i])"
        using False by simp
      have ind': "error_indicators (writer s1) = error_indicators (writer s0) @ [Suc e0..<Suc e0]"
        using ind by simp
      from step [OF c cnt1 ind' cnt] show ?thesis .
    next
      assume br: "main_iteration q P iv url i e0 s0 = Break e0 s1"
      have unfolded: "main_loop q P iv url (i # inputs) e0 s0 =
          (case monitorChannel iv (received_before_line79 i) s1 of
             Inl p \<Rightarrow> Panicked p
           | Inr s'' \<Rightarrow> Exited e0 (after_loop s''))"
        using br by simp
      obtain s2 where recv: "monitorChannel iv (received_before_line79 i) s1 = Inr s2"
      proof (cases "monitorChannel iv (received_before_line79 i) s1")
        case (Inl p)
        with unfolded Cons.prems have False by auto
        then show ?thesis ..
      next
        case (Inr s2)
        with that show ?thesis .
      qed
      with unfolded Cons.prems(1) have out: "out = Exited e0 (after_loop s2)" by simp
      with Cons.prems(2) have es: "e = e0" "s = after_loop s2" by simp_all
      have ind2: "error_indicators (writer s2) = error_indicators (writer s0)"
        using monitorChannel_indicators [OF recv] ind by simp
      have cnt2: "count_list (writer s2) ''Node caught up\<newline>''
                   = count_list (writer s0) ''Node caught up\<newline>''"
        using monitorChannel_caught_up [OF recv] cnt by simp
      have a: "Suc 0 \<le> length (i # inputs)" by simp
      have b: "e = e0 + length (filter (\<lambda>i. poll_failed P (exchange i)) (take (Suc 0) (i # inputs)))"
        using es False by simp
      have c: "error_indicators (writer s) = error_indicators (writer s0) @ [Suc e0..<Suc e]"
        using ind2 es by (simp add: after_loop_writer error_indicators_def caught_up_not_error)
      have d: "\<not> out = StillPolling e s" using out by simp
      have e: "0 < Suc 0
              \<and> (\<exists>s'. main_loop q P iv url (take (Suc 0 - 1) (i # inputs)) e0 s0 = StillPolling e s')
              \<and> count_list (writer s) ''Node caught up\<newline>''
                = count_list (writer s0) ''Node caught up\<newline>''
                  + (if f64_nonzero (highest_known_checkpoint s) then 1 else 0)"
        using cnt2 es by (simp add: after_loop_writer)
      from a b c d e show ?thesis by blast
    qed
  qed
qed


lemma main_unfold:
  "main q P a n inputs =
     (if (case a of None \<Rightarrow> default_validator_addr | Some x \<Rightarrow> x) = []
      then Fatal ''Please specify -addr''
      else if wrap64 (wrap64 (case n of None \<Rightarrow> default_update_interval | Some x \<Rightarrow> x) * 1000000000) \<le> 0
      then Panicked NonPositiveTickerInterval
      else main_loop q P (case n of None \<Rightarrow> default_update_interval | Some x \<Rightarrow> x)
             (case a of None \<Rightarrow> default_validator_addr | Some x \<Rightarrow> x) inputs 0
             (Fprintf [] initial_globals))"
  by (simp add: main_def Let_def)

text \<open>A run that polls or has returned got past the two checks of the start.\<close>

lemma main_is_loop:
  assumes "main q P a n inputs = StillPolling e s \<or> main q P a n inputs = Exited e s"
  shows "main q P a n xs =
           main_loop q P (case n of None \<Rightarrow> default_update_interval | Some x \<Rightarrow> x)
             (case a of None \<Rightarrow> default_validator_addr | Some x \<Rightarrow> x) xs 0
             (Fprintf [] initial_globals)"
proof -
  have "\<not> ((case a of None \<Rightarrow> default_validator_addr | Some x \<Rightarrow> x) = []
          \<or> wrap64 (wrap64 (case n of None \<Rightarrow> default_update_interval | Some x \<Rightarrow> x) * 1000000000) \<le> 0)"
  proof
    assume "(case a of None \<Rightarrow> default_validator_addr | Some x \<Rightarrow> x) = []
          \<or> wrap64 (wrap64 (case n of None \<Rightarrow> default_update_interval | Some x \<Rightarrow> x) * 1000000000) \<le> 0"
    then have "main q P a n inputs = Fatal ''Please specify -addr''
               \<or> main q P a n inputs = Panicked NonPositiveTickerInterval"
      unfolding main_unfold by auto
    with assms show False by auto
  qed
  then show ?thesis unfolding main_unfold by simp
qed

lemma start_state:
  "metric_channel (Fprintf [] initial_globals) = []"
  "error_indicators (writer (Fprintf [] initial_globals)) = []"
  "count_list (writer (Fprintf [] initial_globals)) ''Node caught up\<newline>'' = 0"
  by (simp_all add: initial_globals_def error_indicators_def is_error_line_def)


lemma main_exit_message:
  assumes "main q P a n inputs = Exited e sf"
  shows "count_list (writer sf) ''Node caught up\<newline>''
           = (if f64_nonzero (highest_known_checkpoint sf) then 1 else 0)"
proof -
  from assms have alive: "main q P a n inputs = StillPolling e sf \<or> main q P a n inputs = Exited e sf"
    by simp
  have run: "main_loop q P (case n of None \<Rightarrow> default_update_interval | Some x \<Rightarrow> x)
             (case a of None \<Rightarrow> default_validator_addr | Some x \<Rightarrow> x) inputs 0
             (Fprintf [] initial_globals) = Exited e sf"
    using main_is_loop [OF alive, of inputs] assms by simp
  have "Exited e sf = StillPolling e sf \<or> Exited e sf = Exited e sf" by simp
  from main_loop_run [OF run this] have
    "count_list (writer sf) ''Node caught up\<newline>''
       = count_list (writer (Fprintf [] initial_globals)) ''Node caught up\<newline>''
         + (if f64_nonzero (highest_known_checkpoint sf) then 1 else 0)"
    by blast
  then show ?thesis unfolding start_state(3) by simp
qed

lemma main_iteration_failed_idle:
  assumes failed: "poll_failed P (exchange i)" and empty: "metric_channel s = []"
  shows "\<exists>s'. main_iteration q P iv url i errors s = Continue (Suc errors) s'
            \<and> error_indicators (writer s') = error_indicators (writer s) @ [Suc errors]
            \<and> metric_channel s' = []"
proof -
  from fetch_failed [OF failed] obtain e where
    fetch: "fetchMetricFamilies q P url (exchange i) s = (Some e, s)" by blast
  define line where "line = ''Error fetching metrics: '' @ error_text e @ '' '' @ indicator (Suc errors) @ ''\<newline>''"
  have "main_iteration q P iv url i errors s = Continue (Suc errors) (Fprintf line s)"
    using fetch empty
    by (simp add: main_iteration_def wait_for_tick_def monitorChannel_empty Let_def line_def)
  moreover have "is_error_line line"
    unfolding line_def by (rule error_line_is_error_line)
  moreover have "indicator_length line = Suc errors"
    unfolding line_def by (rule indicator_length_error_line)
  ultimately have "main_iteration q P iv url i errors s = Continue (Suc errors) (Fprintf line s)
      \<and> error_indicators (writer (Fprintf line s)) = error_indicators (writer s) @ [Suc errors]"
    by (simp add: error_indicators_def)
  moreover have "metric_channel (Fprintf line s) = []"
    using empty by simp
  ultimately show ?thesis by blast
qed

lemma failures_only_run:
  assumes "\<forall>i\<in>set inputs. poll_failed P (exchange i)" and "metric_channel s = []"
  shows "\<exists>sf. main_loop q P iv url inputs e s = StillPolling (e + length inputs) sf
            \<and> error_indicators (writer sf)
                = error_indicators (writer s) @ [Suc e..<Suc (e + length inputs)]"
  using assms
proof (induction inputs arbitrary: e s)
  case Nil
  then show ?case by simp
next
  case (Cons i inputs)
  from Cons.prems have failed: "poll_failed P (exchange i)" by simp
  from main_iteration_failed_idle [OF failed Cons.prems(2), of q iv url e] obtain s1 where
    it: "main_iteration q P iv url i e s = Continue (Suc e) s1" and
    ind: "error_indicators (writer s1) = error_indicators (writer s) @ [Suc e]" and
    empty: "metric_channel s1 = []"
    by blast
  from Cons.prems have rest: "\<forall>i\<in>set inputs. poll_failed P (exchange i)" by simp
  from Cons.IH [OF rest empty, of "Suc e"] obtain sf where
    run: "main_loop q P iv url inputs (Suc e) s1 = StillPolling (Suc e + length inputs) sf" and
    out: "error_indicators (writer sf)
            = error_indicators (writer s1) @ [Suc (Suc e)..<Suc (Suc e + length inputs)]"
    by blast
  have upt: "[Suc e..<Suc (e + length (i # inputs))]
               = Suc e # [Suc (Suc e)..<Suc (Suc e + length inputs)]"
    using upt_conv_Cons [of "Suc e" "Suc (e + length (i # inputs))"] by simp
  have "main_loop q P iv url (i # inputs) e s = StillPolling (e + length (i # inputs)) sf"
    using it run by simp
  moreover have "error_indicators (writer sf)
                = error_indicators (writer s) @ [Suc e..<Suc (e + length (i # inputs))]"
    unfolding out ind upt by simp
  ultimately show ?case by blast
qed

text \<open>The equations that evaluate a run on concrete inputs.\<close>

lemma monitorChannel_numeral:
  "monitorChannel iv (numeral k) s =
     (case metric_channel s of
        [] \<Rightarrow> Inr s
      | f # rest \<Rightarrow>
          (case monitor_body iv f (s\<lparr>metric_channel := rest\<rparr>) of
             Inl p \<Rightarrow> Inl p
           | Inr s' \<Rightarrow> monitorChannel iv (pred_numeral k) s'))"
  by (simp add: numeral_eq_Suc)

lemma monitorChannel_one:
  "monitorChannel iv 1 s =
     (case metric_channel s of
        [] \<Rightarrow> Inr s
      | f # rest \<Rightarrow>
          (case monitor_body iv f (s\<lparr>metric_channel := rest\<rparr>) of
             Inl p \<Rightarrow> Inl p
           | Inr s' \<Rightarrow> Inr s'))"
  by (simp split: list.splits sum.splits)

lemma indicator_numeral: "indicator (numeral k) = indicator (pred_numeral k) @ ''.''"
  by (simp add: numeral_eq_Suc)

lemmas run_defs =
  main_def main_iteration_def wait_for_tick_def fetchMetricFamilies_def parseResponse_def
  parseReader_def chan_send_def Fprintf_def monitor_body_def store_family_def report_status_def
  rate_text_def quo64_def neg64_def trunc_def wrap64_def fmt_d_def digits.simps
  digit_char_def GetName_def GetMetric_def GetGauge_def GetValue_def first_gauge_value_def
  f64_nonzero_def float_defs after_loop_def initial_globals_def default_validator_addr_def
  default_update_interval_def plain_quote_def gauge_family_def no_families_def known_only_def
  both_families_def fixed_parser_def table_parser_def response_def ok_response_def refused_def
  monitorChannel_numeral monitorChannel_one indicator_numeral


subsection \<open>The check of lines 71 and 72\<close>

lemma main_iteration_after_fetch:
  assumes "fetchMetricFamilies q P url (exchange i) s = (None, s1)"
      and "monitorChannel iv (received_after_fetch i) s1 = Inr s2"
  shows "main_iteration q P iv url i errors s =
      (if f64_nonzero (highest_known_checkpoint s2) then
         (case monitorChannel iv (received_after_line71 i) s2 of
            Inl p \<Rightarrow> Crash p
          | Inr s3 \<Rightarrow>
              (case monitorChannel iv (received_within_line72 i) s3 of
                 Inl p \<Rightarrow> Crash p
               | Inr s4 \<Rightarrow>
                   if f64_le_zero (f64_sub (highest_known_checkpoint s3)
                                           (highest_synced_checkpoint s4))
                   then Break errors s4
                   else wait_for_tick iv i errors s4))
       else wait_for_tick iv i errors s2)"
  using assms by (simp add: main_iteration_def)

lemma wait_for_tick_no_break: "wait_for_tick iv i errors t \<noteq> Break e s'"
  by (simp add: wait_for_tick_def split: sum.splits)

lemma break_taken:
  assumes "fetchMetricFamilies q P url (exchange i) s = (None, s1)"
      and "monitorChannel iv (received_after_fetch i) s1 = Inr s2"
      and "f64_nonzero (highest_known_checkpoint s2)"
      and "monitorChannel iv (received_after_line71 i) s2 = Inr s3"
      and "monitorChannel iv (received_within_line72 i) s3 = Inr s4"
      and "f64_le_zero (f64_sub (highest_known_checkpoint s3) (highest_synced_checkpoint s4))"
  shows "main_iteration q P iv url i errors s = Break errors s4"
  unfolding main_iteration_after_fetch [OF assms(1,2)] using assms(3-6) by simp

lemma break_only_then:
  assumes fetch: "fetchMetricFamilies q P url (exchange i) s = (None, s1)"
      and recv: "monitorChannel iv (received_after_fetch i) s1 = Inr s2"
      and br: "main_iteration q P iv url i errors s = Break e s'"
  shows "f64_nonzero (highest_known_checkpoint s2)
         \<and> (\<exists>s3 s4. monitorChannel iv (received_after_line71 i) s2 = Inr s3
                \<and> monitorChannel iv (received_within_line72 i) s3 = Inr s4
                \<and> f64_le_zero (f64_sub (highest_known_checkpoint s3)
                                         (highest_synced_checkpoint s4)))"
proof -
  note step = main_iteration_after_fetch [OF fetch recv, of errors]
  have nz: "f64_nonzero (highest_known_checkpoint s2)"
    using br wait_for_tick_no_break unfolding step by (auto split: if_splits)
  obtain s3 where s3: "monitorChannel iv (received_after_line71 i) s2 = Inr s3"
    using br nz unfolding step
    by (cases "monitorChannel iv (received_after_line71 i) s2") simp_all
  obtain s4 where s4: "monitorChannel iv (received_within_line72 i) s3 = Inr s4"
    using br nz s3 unfolding step
    by (cases "monitorChannel iv (received_within_line72 i) s3") simp_all
  have "f64_le_zero (f64_sub (highest_known_checkpoint s3) (highest_synced_checkpoint s4))"
    using br nz s3 s4 wait_for_tick_no_break unfolding step by (auto split: if_splits)
  with nz s3 s4 show ?thesis by blast
qed


section \<open>The claims\<close>

subsection \<open>C1: leaving the loop\<close>

text \<open>
  C1 as stated fails: the exit does not always write the final message. The check of
  lines 71 and 72 and the load of line 79 are separate loads, and the aggregator stores
  in between. The first poll reports 100 and 100, and the aggregator takes both during
  the wait. The second poll reports 0 and 100; its two entries are still on the channel
  when the check reads 100 and 100 and leaves the loop. The aggregator then receives the
  known entry and stores the 0, line 79 reads it, and the run returns without the
  message.
\<close>

theorem exit_without_final_message:
  "main plain_quote
     (table_parser [(''first'', both_families (Finite 100) (Finite 100)),
                    (''second'', both_families (Finite 0) (Finite 100))])
     None None [response ''first'' 0 0 0 0 2, response ''second'' 0 0 0 1 0]
   = Exited 0
       \<lparr>metric_channel = [Some (gauge_family ''highest_synced_checkpoint'' (Finite 100))],
        highest_known_checkpoint = Finite 0, highest_synced_checkpoint = Finite 100,
        last_delta = Finite 0,
        writer = [[], ''Catching up, 0 checkpoints behind (falling behind at 0/s)\<newline>'']\<rparr>"
  by (simp add: run_defs)


text \<open>
  C1, amended. After a successful poll the controller leaves the loop exactly when the
  known value it loads on line 71 is not zero and, for the known and the synced value it
  loads on line 72, known minus synced is at most zero. With 100 read at all three loads
  it leaves. When it leaves and line 79 loads a non-zero known value, the run returns
  with the final message appended once; this is so whenever the aggregator receives
  nothing between the loads. A run that has returned holds the message once if the known
  value is non-zero at the end, and not at all otherwise.
\<close>

theorem leaves_loop_on_loaded_values:
  assumes fetch: "fetchMetricFamilies q P url (exchange i) s = (None, s1)"
      and recv: "monitorChannel iv (received_after_fetch i) s1 = Inr s2"
  shows "((\<exists>e s'. main_iteration q P iv url i errors s = Break e s')
            \<longleftrightarrow> (f64_nonzero (highest_known_checkpoint s2)
                 \<and> (\<exists>s3 s4. monitorChannel iv (received_after_line71 i) s2 = Inr s3
                        \<and> monitorChannel iv (received_within_line72 i) s3 = Inr s4
                        \<and> f64_le_zero (f64_sub (highest_known_checkpoint s3)
                                                 (highest_synced_checkpoint s4)))))
         \<and> (\<forall>s3 s4.
               highest_known_checkpoint s2 = Finite 100
               \<and> monitorChannel iv (received_after_line71 i) s2 = Inr s3
               \<and> monitorChannel iv (received_within_line72 i) s3 = Inr s4
               \<and> highest_known_checkpoint s3 = Finite 100
               \<and> highest_synced_checkpoint s4 = Finite 100 \<longrightarrow>
                 main_iteration q P iv url i errors s = Break errors s4)
         \<and> (\<forall>s3 s4 s5.
               f64_nonzero (highest_known_checkpoint s2)
               \<and> monitorChannel iv (received_after_line71 i) s2 = Inr s3
               \<and> monitorChannel iv (received_within_line72 i) s3 = Inr s4
               \<and> f64_le_zero (f64_sub (highest_known_checkpoint s3) (highest_synced_checkpoint s4))
               \<and> monitorChannel iv (received_before_line79 i) s4 = Inr s5
               \<and> f64_nonzero (highest_known_checkpoint s5) \<longrightarrow>
                 main_loop q P iv url (i # rest) errors s
                   = Exited errors (s5\<lparr>writer := writer s5 @ [''Node caught up\<newline>'']\<rparr>))
         \<and> (received_after_line71 i = 0 \<and> received_within_line72 i = 0
              \<and> received_before_line79 i = 0
              \<and> f64_nonzero (highest_known_checkpoint s2)
              \<and> f64_le_zero (f64_sub (highest_known_checkpoint s2) (highest_synced_checkpoint s2)) \<longrightarrow>
                 main_loop q P iv url (i # rest) errors s
                   = Exited errors (s2\<lparr>writer := writer s2 @ [''Node caught up\<newline>'']\<rparr>))
         \<and> (\<forall>a n inputs e sf. main q P a n inputs = Exited e sf \<longrightarrow>
               count_list (writer sf) ''Node caught up\<newline>''
                 = (if f64_nonzero (highest_known_checkpoint sf) then 1 else 0))"
proof -
  have taken: "main_iteration q P iv url i errors s = Break errors s4"
    if "f64_nonzero (highest_known_checkpoint s2)"
       "monitorChannel iv (received_after_line71 i) s2 = Inr s3"
       "monitorChannel iv (received_within_line72 i) s3 = Inr s4"
       "f64_le_zero (f64_sub (highest_known_checkpoint s3) (highest_synced_checkpoint s4))"
    for s3 s4
    using break_taken [OF fetch recv that] .
  have only_then: "f64_nonzero (highest_known_checkpoint s2)
                 \<and> (\<exists>s3 s4. monitorChannel iv (received_after_line71 i) s2 = Inr s3
                        \<and> monitorChannel iv (received_within_line72 i) s3 = Inr s4
                        \<and> f64_le_zero (f64_sub (highest_known_checkpoint s3)
                                                 (highest_synced_checkpoint s4)))"
    if "main_iteration q P iv url i errors s = Break e s'" for e s'
    using break_only_then [OF fetch recv that] .
  have iff: "(\<exists>e s'. main_iteration q P iv url i errors s = Break e s')
            \<longleftrightarrow> (f64_nonzero (highest_known_checkpoint s2)
                 \<and> (\<exists>s3 s4. monitorChannel iv (received_after_line71 i) s2 = Inr s3
                        \<and> monitorChannel iv (received_within_line72 i) s3 = Inr s4
                        \<and> f64_le_zero (f64_sub (highest_known_checkpoint s3)
                                                 (highest_synced_checkpoint s4))))"
    using taken only_then by blast
  have hundred: "main_iteration q P iv url i errors s = Break errors s4"
    if "highest_known_checkpoint s2 = Finite 100"
       "monitorChannel iv (received_after_line71 i) s2 = Inr s3"
       "monitorChannel iv (received_within_line72 i) s3 = Inr s4"
       "highest_known_checkpoint s3 = Finite 100"
       "highest_synced_checkpoint s4 = Finite 100"
    for s3 s4
  proof -
    have "f64_nonzero (highest_known_checkpoint s2)"
      using that(1) by (simp add: f64_nonzero_def)
    moreover have "f64_le_zero (f64_sub (highest_known_checkpoint s3) (highest_synced_checkpoint s4))"
      using that(4,5) by (simp add: round_f64_def)
    ultimately show ?thesis using taken that(2,3) by blast
  qed
  have exit: "main_loop q P iv url (i # rest) errors s
                   = Exited errors (s5\<lparr>writer := writer s5 @ [''Node caught up\<newline>'']\<rparr>)"
    if "f64_nonzero (highest_known_checkpoint s2)"
       "monitorChannel iv (received_after_line71 i) s2 = Inr s3"
       "monitorChannel iv (received_within_line72 i) s3 = Inr s4"
       "f64_le_zero (f64_sub (highest_known_checkpoint s3) (highest_synced_checkpoint s4))"
       "monitorChannel iv (received_before_line79 i) s4 = Inr s5"
       "f64_nonzero (highest_known_checkpoint s5)"
    for s3 s4 s5
    using taken [OF that(1-4)] that(5,6) by (simp add: after_loop_def Fprintf_def)
  have quiet: "main_loop q P iv url (i # rest) errors s
                   = Exited errors (s2\<lparr>writer := writer s2 @ [''Node caught up\<newline>'']\<rparr>)"
    if "received_after_line71 i = 0 \<and> received_within_line72 i = 0
              \<and> received_before_line79 i = 0
              \<and> f64_nonzero (highest_known_checkpoint s2)
              \<and> f64_le_zero (f64_sub (highest_known_checkpoint s2) (highest_synced_checkpoint s2))"
    using exit [of s2 s2 s2] that by simp
  from iff hundred exit quiet main_exit_message show ?thesis by blast
qed

theorem leaves_loop_on_loaded_values_witness:
  "main_loop plain_quote (fixed_parser (both_families (Finite 100) (Finite 100), None)) 1
     default_validator_addr [ok_response 2 0] 0 (Fprintf [] initial_globals)
   = Exited 0 \<lparr>metric_channel = [], highest_known_checkpoint = Finite 100,
                highest_synced_checkpoint = Finite 100, last_delta = Finite 0,
                writer = [[], ''Catching up, 0 checkpoints behind (falling behind at 0/s)\<newline>'',
                          ''Node caught up\<newline>'']\<rparr>"
proof -
  define s1 where "s1 = \<lparr>metric_channel = [Some (gauge_family ''highest_known_checkpoint'' (Finite 100)),
                                              Some (gauge_family ''highest_synced_checkpoint'' (Finite 100))],
                highest_known_checkpoint = Finite 0, highest_synced_checkpoint = Finite 0,
                last_delta = Finite 0, writer = [[]]\<rparr>"
  define s2 where "s2 = \<lparr>metric_channel = [], highest_known_checkpoint = Finite 100,
                highest_synced_checkpoint = Finite 100, last_delta = Finite 0,
                writer = [[], ''Catching up, 0 checkpoints behind (falling behind at 0/s)\<newline>'']\<rparr>"
  have fetch: "fetchMetricFamilies plain_quote (fixed_parser (both_families (Finite 100) (Finite 100), None))
                 default_validator_addr (exchange (ok_response 2 0)) (Fprintf [] initial_globals)
               = (None, s1)"
    by (simp add: run_defs s1_def)
  have recv: "monitorChannel 1 (received_after_fetch (ok_response 2 0)) s1 = Inr s2"
    by (simp add: run_defs s1_def s2_def)
  have quiet: "received_after_line71 (ok_response 2 0) = 0 \<and> received_within_line72 (ok_response 2 0) = 0
              \<and> received_before_line79 (ok_response 2 0) = 0
              \<and> f64_nonzero (highest_known_checkpoint s2)
              \<and> f64_le_zero (f64_sub (highest_known_checkpoint s2) (highest_synced_checkpoint s2))"
    by (simp add: ok_response_def response_def s2_def f64_nonzero_def round_f64_def)
  from leaves_loop_on_loaded_values [OF fetch recv, of 0 "[]"] quiet
  have "main_loop plain_quote (fixed_parser (both_families (Finite 100) (Finite 100), None)) 1
          default_validator_addr [ok_response 2 0] 0 (Fprintf [] initial_globals)
        = Exited 0 (s2\<lparr>writer := writer s2 @ [''Node caught up\<newline>'']\<rparr>)"
    by blast
  then show ?thesis by (simp add: s2_def)
qed


subsection \<open>C2: only the known value has arrived\<close>

text \<open>
  C2 as stated fails on the controller's side. A payload that reports the known
  checkpoint as \<open>-5\<close> and no synced checkpoint leaves the synced value at zero; the
  check of lines 71 and 72 then loads a non-zero known value and finds the gap
  \<open>-5 - 0 \<le> 0\<close>, and the run ends with the final message.
\<close>

theorem negative_known_converges:
  "main plain_quote (fixed_parser (known_only (Finite (- 5)), None)) None None [ok_response 2 0]
     = Exited 0 \<lparr>metric_channel = [], highest_known_checkpoint = Finite (- 5),
                  highest_synced_checkpoint = Finite 0, last_delta = Finite 0,
                  writer = [[], ''Node caught up\<newline>'']\<rparr>"
  by (simp add: run_defs)

text \<open>
  C2, amended. In every state whose synced value is zero the aggregator computes no gap
  and no rate and writes no line, whatever the known value is, negative values included;
  a received family other than the synced one leaves it so. The controller's check does
  not fire after a successful poll when the known value loaded on line 71 is zero, nor
  when line 72 loads zero for the synced value and, for the known value, a binary64
  value that is not at most zero. So it does not fire when the synced value stays zero,
  the known value is not negative and no store falls between the loads.
\<close>

theorem partial_state_tolerance:
  assumes "highest_synced_checkpoint s = Finite 0"
  shows "report_status iv s = Inr s
         \<and> (GetName f \<noteq> ''highest_synced_checkpoint'' \<longrightarrow>
              (\<forall>s'. monitor_body iv f s = Inr s' \<longrightarrow>
                 highest_synced_checkpoint s' = Finite 0 \<and> last_delta s' = last_delta s
                 \<and> writer s' = writer s))
         \<and> (\<forall>q P url i errors t t1 t2.
               fetchMetricFamilies q P url (exchange i) t = (None, t1)
               \<and> monitorChannel iv (received_after_fetch i) t1 = Inr t2
               \<and> (f64_nonzero (highest_known_checkpoint t2) \<longrightarrow>
                    (\<forall>t3 t4. monitorChannel iv (received_after_line71 i) t2 = Inr t3
                           \<and> monitorChannel iv (received_within_line72 i) t3 = Inr t4 \<longrightarrow>
                             highest_synced_checkpoint t4 = Finite 0
                             \<and> is_binary64 (highest_known_checkpoint t3)
                             \<and> \<not> f64_le_zero (highest_known_checkpoint t3))) \<longrightarrow>
                 (\<forall>e t'. main_iteration q P iv url i errors t \<noteq> Break e t'))
         \<and> (\<forall>q P url i errors t t1.
               fetchMetricFamilies q P url (exchange i) t = (None, t1)
               \<and> monitorChannel iv (received_after_fetch i) t1 = Inr s
               \<and> received_after_line71 i = 0 \<and> received_within_line72 i = 0
               \<and> is_binary64 (highest_known_checkpoint s)
               \<and> \<not> f64_lt_zero (highest_known_checkpoint s) \<longrightarrow>
                 (\<forall>e t'. main_iteration q P iv url i errors t \<noteq> Break e t'))"
proof -
  have a: "report_status iv s = Inr s"
    using assms by (simp add: report_status_def f64_nonzero_def)
  have b: "highest_synced_checkpoint s' = Finite 0 \<and> last_delta s' = last_delta s \<and> writer s' = writer s"
    if name: "GetName f \<noteq> ''highest_synced_checkpoint''" and body: "monitor_body iv f s = Inr s'" for s'
  proof -
    from body obtain t where t: "store_family f s = Inr t" and r: "report_status iv t = Inr s'"
      unfolding monitor_body_def by (cases "store_family f s") simp_all
    from t name assms have t0: "highest_synced_checkpoint t = Finite 0"
      by (auto simp: store_family_def split: if_splits sum.splits)
    with r have "s' = t" by (simp add: report_status_def f64_nonzero_def)
    with t0 store_family_fields [OF t] show ?thesis by simp
  qed
  have c: "main_iteration q P iv url i errors t \<noteq> Break e t'"
    if fetch: "fetchMetricFamilies q P url (exchange i) t = (None, t1)"
    and recv: "monitorChannel iv (received_after_fetch i) t1 = Inr t2"
    and loads: "f64_nonzero (highest_known_checkpoint t2) \<longrightarrow>
                    (\<forall>t3 t4. monitorChannel iv (received_after_line71 i) t2 = Inr t3
                           \<and> monitorChannel iv (received_within_line72 i) t3 = Inr t4 \<longrightarrow>
                             highest_synced_checkpoint t4 = Finite 0
                             \<and> is_binary64 (highest_known_checkpoint t3)
                             \<and> \<not> f64_le_zero (highest_known_checkpoint t3))"
    for q P url i errors t t1 t2 e t'
  proof
    assume br: "main_iteration q P iv url i errors t = Break e t'"
    from break_only_then [OF fetch recv br] obtain t3 t4 where
      nz: "f64_nonzero (highest_known_checkpoint t2)" and
      t3: "monitorChannel iv (received_after_line71 i) t2 = Inr t3" and
      t4: "monitorChannel iv (received_within_line72 i) t3 = Inr t4" and
      le: "f64_le_zero (f64_sub (highest_known_checkpoint t3) (highest_synced_checkpoint t4))"
      by blast
    from loads nz t3 t4 have
      z: "highest_synced_checkpoint t4 = Finite 0" and
      bin: "is_binary64 (highest_known_checkpoint t3)" and
      pos: "\<not> f64_le_zero (highest_known_checkpoint t3)"
      by blast+
    from le show False unfolding z f64_sub_zero [OF bin] using pos by simp
  qed
  have d: "main_iteration q P iv url i errors t \<noteq> Break e t'"
    if fetch: "fetchMetricFamilies q P url (exchange i) t = (None, t1)"
    and recv: "monitorChannel iv (received_after_fetch i) t1 = Inr s"
    and quiet: "received_after_line71 i = 0" "received_within_line72 i = 0"
    and bin: "is_binary64 (highest_known_checkpoint s)"
    and nonneg: "\<not> f64_lt_zero (highest_known_checkpoint s)"
    for q P url i errors t t1 e t'
  proof (rule c [OF fetch recv])
    show "f64_nonzero (highest_known_checkpoint s) \<longrightarrow>
           (\<forall>t3 t4. monitorChannel iv (received_after_line71 i) s = Inr t3
                  \<and> monitorChannel iv (received_within_line72 i) t3 = Inr t4 \<longrightarrow>
                    highest_synced_checkpoint t4 = Finite 0
                    \<and> is_binary64 (highest_known_checkpoint t3)
                    \<and> \<not> f64_le_zero (highest_known_checkpoint t3))"
    proof (intro impI allI)
      fix t3 t4
      assume nz: "f64_nonzero (highest_known_checkpoint s)"
         and "monitorChannel iv (received_after_line71 i) s = Inr t3
                  \<and> monitorChannel iv (received_within_line72 i) t3 = Inr t4"
      with quiet have same: "t3 = s" "t4 = s" by simp_all
      have "\<not> f64_le_zero (highest_known_checkpoint s)"
        using nz nonneg by (cases "highest_known_checkpoint s") (auto simp: f64_nonzero_def)
      with same assms bin show "highest_synced_checkpoint t4 = Finite 0
                    \<and> is_binary64 (highest_known_checkpoint t3)
                    \<and> \<not> f64_le_zero (highest_known_checkpoint t3)"
        by simp
    qed
  qed
  from a b c d show ?thesis by blast
qed


theorem partial_state_tolerance_witness:
  "report_status 1 (initial_globals\<lparr>highest_known_checkpoint := Finite 5\<rparr>)
     = Inr (initial_globals\<lparr>highest_known_checkpoint := Finite 5\<rparr>)
   \<and> monitor_body 1 (Some (gauge_family ''highest_known_checkpoint'' (Finite 9)))
        (initial_globals\<lparr>highest_known_checkpoint := Finite 5\<rparr>)
     = Inr (initial_globals\<lparr>highest_known_checkpoint := Finite 9\<rparr>)
   \<and> highest_synced_checkpoint (initial_globals\<lparr>highest_known_checkpoint := Finite 9\<rparr>) = Finite 0
   \<and> last_delta (initial_globals\<lparr>highest_known_checkpoint := Finite 9\<rparr>)
       = last_delta (initial_globals\<lparr>highest_known_checkpoint := Finite 5\<rparr>)
   \<and> writer (initial_globals\<lparr>highest_known_checkpoint := Finite 9\<rparr>)
       = writer (initial_globals\<lparr>highest_known_checkpoint := Finite 5\<rparr>)
   \<and> main_iteration plain_quote (fixed_parser (no_families, None)) 1 default_validator_addr
        (ok_response 0 0) 0 (initial_globals\<lparr>highest_known_checkpoint := Finite 5\<rparr>)
       \<noteq> Break 0 (initial_globals\<lparr>highest_known_checkpoint := Finite 5,
                                    metric_channel := [None, None]\<rparr>)"
proof -
  define s where "s = initial_globals\<lparr>highest_known_checkpoint := Finite 5, metric_channel := [None, None]\<rparr>"
  define t where "t = initial_globals\<lparr>highest_known_checkpoint := Finite 5\<rparr>"
  have synced_t: "highest_synced_checkpoint t = Finite 0"
    by (simp add: t_def initial_globals_def)
  have synced: "highest_synced_checkpoint s = Finite 0"
    by (simp add: s_def initial_globals_def)
  have name: "GetName (Some (gauge_family ''highest_known_checkpoint'' (Finite 9))) \<noteq> ''highest_synced_checkpoint''"
    by (simp add: GetName_def gauge_family_def)
  have body: "monitor_body 1 (Some (gauge_family ''highest_known_checkpoint'' (Finite 9))) t
     = Inr (initial_globals\<lparr>highest_known_checkpoint := Finite 9\<rparr>)"
    by (simp add: run_defs t_def)
  have fetch: "fetchMetricFamilies plain_quote (fixed_parser (no_families, None)) default_validator_addr
                 (exchange (ok_response 0 0)) t = (None, s)"
    by (simp add: run_defs s_def t_def)
  have recv: "monitorChannel 1 (received_after_fetch (ok_response 0 0)) s = Inr s"
    by (simp add: ok_response_def response_def)
  have quiet: "received_after_line71 (ok_response 0 0) = 0 \<and> received_within_line72 (ok_response 0 0) = 0"
    by (simp add: ok_response_def response_def)
  have bin: "is_binary64 (highest_known_checkpoint s)"
    by (simp add: s_def is_binary64_def float_defs)
  have nonneg: "\<not> f64_lt_zero (highest_known_checkpoint s)"
    by (simp add: s_def)
  from partial_state_tolerance [OF synced, of 1 None] fetch recv quiet bin nonneg
  have no_break: "main_iteration plain_quote (fixed_parser (no_families, None)) 1 default_validator_addr
        (ok_response 0 0) 0 t \<noteq> Break 0 s"
    by blast
  from partial_state_tolerance [OF synced_t, of 1 "Some (gauge_family ''highest_known_checkpoint'' (Finite 9))"]
    name body
  have "report_status 1 t = Inr t
        \<and> highest_synced_checkpoint (initial_globals\<lparr>highest_known_checkpoint := Finite 9\<rparr>) = Finite 0
        \<and> last_delta (initial_globals\<lparr>highest_known_checkpoint := Finite 9\<rparr>) = last_delta t
        \<and> writer (initial_globals\<lparr>highest_known_checkpoint := Finite 9\<rparr>) = writer t"
    by blast
  with body no_break show ?thesis unfolding t_def s_def by simp
qed


subsection \<open>C3: a payload with one of the two families\<close>

text \<open>
  C3 as stated fails: parseReader sends two entries whatever the payload holds, and the
  entry of the absent family is a nil pointer that the aggregator receives and works on.
  With 150 and 100 stored and a gap of 50 before, a payload that holds the known family
  alone, at 160, puts two entries on the channel, and the aggregator writes two status
  lines, the second for the nil entry.
\<close>

theorem absent_family_sends_nil:
  "parseReader (fixed_parser (known_only (Finite 160), None)) []
     \<lparr>metric_channel = [], highest_known_checkpoint = Finite 150,
      highest_synced_checkpoint = Finite 100, last_delta = Finite 50, writer = []\<rparr>
   = (None,
      \<lparr>metric_channel = [Some (gauge_family ''highest_known_checkpoint'' (Finite 160)), None],
       highest_known_checkpoint = Finite 150, highest_synced_checkpoint = Finite 100,
       last_delta = Finite 50, writer = []\<rparr>)
   \<and> monitorChannel 1 2
       \<lparr>metric_channel = [Some (gauge_family ''highest_known_checkpoint'' (Finite 160)), None],
        highest_known_checkpoint = Finite 150, highest_synced_checkpoint = Finite 100,
        last_delta = Finite 50, writer = []\<rparr>
     = Inr \<lparr>metric_channel = [], highest_known_checkpoint = Finite 160,
            highest_synced_checkpoint = Finite 100, last_delta = Finite 60,
            writer = [''Catching up, 60 checkpoints behind (falling behind at 10/s)\<newline>'',
                      ''Catching up, 60 checkpoints behind (falling behind at 0/s)\<newline>'']\<rparr>"
  by (simp add: run_defs)

text \<open>
  C3, amended. For a valid payload with exactly one of the two families, parseReader
  returns no error and appends two entries to the channel, first the slot of the known
  family and then the slot of the synced family: the family that is present and a nil
  pointer for the absent one. For the nil entry the aggregator stores no value and keeps
  the known and the synced value, and then goes through its gap and rate step on them:
  when both are non-zero it stores the gap as \<^verbatim>\<open>last_delta\<close> and writes one more status
  line, and otherwise it changes nothing. The interval is positive.
\<close>

theorem one_family_and_a_nil:
  assumes valid: "P body = (fams, None)"
      and one: "(fams ''highest_known_checkpoint'' = Some f \<and> fams ''highest_synced_checkpoint'' = None)
                \<or> (fams ''highest_known_checkpoint'' = None \<and> fams ''highest_synced_checkpoint'' = Some f)"
      and interval: "0 < iv" "iv < 2 ^ 63"
  shows "parseReader P body s =
           (None, s\<lparr>metric_channel := metric_channel s
              @ [fams ''highest_known_checkpoint'', fams ''highest_synced_checkpoint'']\<rparr>)
         \<and> ([fams ''highest_known_checkpoint'', fams ''highest_synced_checkpoint''] = [Some f, None]
              \<or> [fams ''highest_known_checkpoint'', fams ''highest_synced_checkpoint''] = [None, Some f])
         \<and> store_family None t = Inr t
         \<and> monitor_body iv None t = report_status iv t
         \<and> (\<forall>t'. monitor_body iv None t = Inr t' \<longrightarrow>
               highest_known_checkpoint t' = highest_known_checkpoint t
               \<and> highest_synced_checkpoint t' = highest_synced_checkpoint t)
         \<and> (f64_nonzero (highest_known_checkpoint t) \<and> f64_nonzero (highest_synced_checkpoint t) \<longrightarrow>
               (\<exists>l. monitor_body iv None t =
                       Inr (t\<lparr>last_delta := f64_sub (highest_known_checkpoint t)
                                                      (highest_synced_checkpoint t),
                               writer := writer t @ [l]\<rparr>)
                     \<and> is_status_line l))
         \<and> (\<not> (f64_nonzero (highest_known_checkpoint t) \<and> f64_nonzero (highest_synced_checkpoint t)) \<longrightarrow>
               monitor_body iv None t = Inr t)"
proof -
  have sent: "[fams ''highest_known_checkpoint'', fams ''highest_synced_checkpoint''] = [Some f, None]
              \<or> [fams ''highest_known_checkpoint'', fams ''highest_synced_checkpoint''] = [None, Some f]"
    using one by auto
  have nil: "monitor_body iv None t = report_status iv t"
    by (simp add: monitor_body_def store_family_nil)
  have kept: "highest_known_checkpoint t' = highest_known_checkpoint t
               \<and> highest_synced_checkpoint t' = highest_synced_checkpoint t"
    if "monitor_body iv None t = Inr t'" for t'
    using that report_status_values [of iv t t'] unfolding nil by simp
  have line: "\<exists>l. monitor_body iv None t =
                       Inr (t\<lparr>last_delta := f64_sub (highest_known_checkpoint t)
                                                      (highest_synced_checkpoint t),
                               writer := writer t @ [l]\<rparr>)
                     \<and> is_status_line l"
    if "f64_nonzero (highest_known_checkpoint t) \<and> f64_nonzero (highest_synced_checkpoint t)"
    unfolding nil using report_status_line [of t iv] that interval by blast
  have idle: "monitor_body iv None t = Inr t"
    if "\<not> (f64_nonzero (highest_known_checkpoint t) \<and> f64_nonzero (highest_synced_checkpoint t))"
    unfolding nil using that by (rule report_status_idle)
  have sends: "parseReader P body s =
           (None, s\<lparr>metric_channel := metric_channel s
              @ [fams ''highest_known_checkpoint'', fams ''highest_synced_checkpoint'']\<rparr>)"
    using valid by (rule parseReader_valid)
  from sends sent store_family_nil [of t] nil kept line idle
  show ?thesis by blast
qed

theorem one_family_and_a_nil_witness:
  "parseReader (fixed_parser (known_only (Finite 160), None)) []
     \<lparr>metric_channel = [], highest_known_checkpoint = Finite 150,
      highest_synced_checkpoint = Finite 100, last_delta = Finite 50, writer = []\<rparr>
   = (None,
      \<lparr>metric_channel = [Some (gauge_family ''highest_known_checkpoint'' (Finite 160)), None],
       highest_known_checkpoint = Finite 150, highest_synced_checkpoint = Finite 100,
       last_delta = Finite 50, writer = []\<rparr>)
   \<and> (\<exists>l. monitor_body 1 None
             \<lparr>metric_channel = [], highest_known_checkpoint = Finite 160,
              highest_synced_checkpoint = Finite 100, last_delta = Finite 50, writer = []\<rparr>
           = Inr \<lparr>metric_channel = [], highest_known_checkpoint = Finite 160,
                  highest_synced_checkpoint = Finite 100, last_delta = Finite 60, writer = [l]\<rparr>
         \<and> is_status_line l)
   \<and> monitor_body 1 None initial_globals = Inr initial_globals"
proof -
  define s where "s = \<lparr>metric_channel = [], highest_known_checkpoint = Finite 150,
      highest_synced_checkpoint = Finite 100, last_delta = Finite 50, writer = ([] :: string list)\<rparr>"
  define t where "t = \<lparr>metric_channel = [], highest_known_checkpoint = Finite 160,
      highest_synced_checkpoint = Finite 100, last_delta = Finite 50, writer = ([] :: string list)\<rparr>"
  have valid: "fixed_parser (known_only (Finite 160), None) [] = (known_only (Finite 160), None)"
    by (simp add: fixed_parser_def)
  have one: "(known_only (Finite 160) ''highest_known_checkpoint''
                = Some (gauge_family ''highest_known_checkpoint'' (Finite 160))
                \<and> known_only (Finite 160) ''highest_synced_checkpoint'' = None)
             \<or> (known_only (Finite 160) ''highest_known_checkpoint'' = None
                \<and> known_only (Finite 160) ''highest_synced_checkpoint''
                    = Some (gauge_family ''highest_known_checkpoint'' (Finite 160)))"
    by (simp add: known_only_def)
  have interval: "0 < (1::int)" "(1::int) < 2 ^ 63" by simp_all
  have both: "f64_nonzero (highest_known_checkpoint t) \<and> f64_nonzero (highest_synced_checkpoint t)"
    by (simp add: t_def f64_nonzero_def)
  have neither: "\<not> (f64_nonzero (highest_known_checkpoint initial_globals)
                     \<and> f64_nonzero (highest_synced_checkpoint initial_globals))"
    by (simp add: initial_globals_def f64_nonzero_def)
  have gap: "f64_sub (highest_known_checkpoint t) (highest_synced_checkpoint t) = Finite 60"
    by (simp add: t_def float_defs)
  from one_family_and_a_nil
         [of "fixed_parser (known_only (Finite 160), None)" "[]" "known_only (Finite 160)"
             "gauge_family ''highest_known_checkpoint'' (Finite 160)" 1 s t]
       valid one interval both
  have sends: "parseReader (fixed_parser (known_only (Finite 160), None)) [] s =
           (None, s\<lparr>metric_channel := metric_channel s
              @ [known_only (Finite 160) ''highest_known_checkpoint'',
                 known_only (Finite 160) ''highest_synced_checkpoint'']\<rparr>)"
   and line: "\<exists>l. monitor_body 1 None t =
                 Inr (t\<lparr>last_delta := f64_sub (highest_known_checkpoint t)
                                                (highest_synced_checkpoint t),
                         writer := writer t @ [l]\<rparr>)
               \<and> is_status_line l"
    by blast+
  from one_family_and_a_nil
         [of "fixed_parser (known_only (Finite 160), None)" "[]" "known_only (Finite 160)"
             "gauge_family ''highest_known_checkpoint'' (Finite 160)" 1 s initial_globals]
       valid one interval neither
  have idle: "monitor_body 1 None initial_globals = Inr initial_globals"
    by blast
  from sends have "parseReader (fixed_parser (known_only (Finite 160), None)) [] s
       = (None, s\<lparr>metric_channel :=
            [Some (gauge_family ''highest_known_checkpoint'' (Finite 160)), None]\<rparr>)"
    by (simp add: s_def known_only_def)
  moreover from line gap have "\<exists>l. monitor_body 1 None t =
                 Inr (t\<lparr>last_delta := Finite 60, writer := [l]\<rparr>) \<and> is_status_line l"
    by (simp add: t_def)
  ultimately show ?thesis using idle by (simp add: s_def t_def)
qed

subsection \<open>C4: a payload with both families\<close>

text \<open>
  C4. For a valid payload with both families, parseReader returns no error and publishes
  exactly two Samples, and the value the aggregator takes from each is the first gauge
  reading of that family.
\<close>

theorem both_families_two_samples:
  assumes valid: "P body = (fams, None)"
      and present: "fams ''highest_known_checkpoint'' = Some fk"
                   "fams ''highest_synced_checkpoint'' = Some fs"
      and names: "Family_Name fk = Some ''highest_known_checkpoint''"
                 "Family_Name fs = Some ''highest_synced_checkpoint''"
      and known_reading: "Family_Metric fk = mk # mks" "Metric_Gauge mk = Some gk" "Gauge_Value gk = Some vk"
      and synced_reading: "Family_Metric fs = ms # mss" "Metric_Gauge ms = Some gs" "Gauge_Value gs = Some vs"
  shows "parseReader P body s =
           (None, s\<lparr>metric_channel := metric_channel s @ [Some fk, Some fs]\<rparr>)
         \<and> samples_of [Some fk, Some fs] = [fk, fs]
         \<and> store_family (Some fk) t = Inr (t\<lparr>highest_known_checkpoint := vk\<rparr>)
         \<and> store_family (Some fs) t = Inr (t\<lparr>highest_synced_checkpoint := vs\<rparr>)"
proof -
  have "store_family (Some fk) t = Inr (t\<lparr>highest_known_checkpoint := vk\<rparr>)"
    using names(1) first_gauge_value_reading [OF known_reading]
    by (simp add: store_family_def GetName_def)
  moreover have "store_family (Some fs) t = Inr (t\<lparr>highest_synced_checkpoint := vs\<rparr>)"
    using names(2) first_gauge_value_reading [OF synced_reading]
    by (simp add: store_family_def GetName_def)
  ultimately show ?thesis
    using valid parseReader_valid [of P body fams s] present by simp
qed

theorem both_families_two_samples_witness:
  "parseReader (fixed_parser (both_families (Finite 200) (Finite 150), None)) [] initial_globals =
     (None, initial_globals\<lparr>metric_channel :=
        [Some (gauge_family ''highest_known_checkpoint'' (Finite 200)),
         Some (gauge_family ''highest_synced_checkpoint'' (Finite 150))]\<rparr>)
   \<and> samples_of [Some (gauge_family ''highest_known_checkpoint'' (Finite 200)),
                  Some (gauge_family ''highest_synced_checkpoint'' (Finite 150))]
       = [gauge_family ''highest_known_checkpoint'' (Finite 200),
          gauge_family ''highest_synced_checkpoint'' (Finite 150)]
   \<and> store_family (Some (gauge_family ''highest_known_checkpoint'' (Finite 200))) initial_globals
       = Inr (initial_globals\<lparr>highest_known_checkpoint := Finite 200\<rparr>)
   \<and> store_family (Some (gauge_family ''highest_synced_checkpoint'' (Finite 150))) initial_globals
       = Inr (initial_globals\<lparr>highest_synced_checkpoint := Finite 150\<rparr>)"
proof -
  have valid: "fixed_parser (both_families (Finite 200) (Finite 150), None) []
                 = (both_families (Finite 200) (Finite 150), None)"
    by (simp add: fixed_parser_def)
  have present:
    "both_families (Finite 200) (Finite 150) ''highest_known_checkpoint''
       = Some (gauge_family ''highest_known_checkpoint'' (Finite 200))"
    "both_families (Finite 200) (Finite 150) ''highest_synced_checkpoint''
       = Some (gauge_family ''highest_synced_checkpoint'' (Finite 150))"
    by (simp_all add: both_families_def)
  have names:
    "Family_Name (gauge_family ''highest_known_checkpoint'' (Finite 200)) = Some ''highest_known_checkpoint''"
    "Family_Name (gauge_family ''highest_synced_checkpoint'' (Finite 150)) = Some ''highest_synced_checkpoint''"
    by (simp_all add: gauge_family_def)
  have k: "Family_Metric (gauge_family ''highest_known_checkpoint'' (Finite 200))
             = \<lparr>Metric_Gauge = Some \<lparr>Gauge_Value = Some (Finite 200)\<rparr>\<rparr> # []"
          "Metric_Gauge \<lparr>Metric_Gauge = Some \<lparr>Gauge_Value = Some (Finite 200)\<rparr>\<rparr>
             = Some \<lparr>Gauge_Value = Some (Finite 200)\<rparr>"
          "Gauge_Value \<lparr>Gauge_Value = Some (Finite 200)\<rparr> = Some (Finite 200)"
    by (simp_all add: gauge_family_def)
  have y: "Family_Metric (gauge_family ''highest_synced_checkpoint'' (Finite 150))
             = \<lparr>Metric_Gauge = Some \<lparr>Gauge_Value = Some (Finite 150)\<rparr>\<rparr> # []"
          "Metric_Gauge \<lparr>Metric_Gauge = Some \<lparr>Gauge_Value = Some (Finite 150)\<rparr>\<rparr>
             = Some \<lparr>Gauge_Value = Some (Finite 150)\<rparr>"
          "Gauge_Value \<lparr>Gauge_Value = Some (Finite 150)\<rparr> = Some (Finite 150)"
    by (simp_all add: gauge_family_def)
  show ?thesis
    using both_families_two_samples
      [of "fixed_parser (both_families (Finite 200) (Finite 150), None)" "[]"
          "both_families (Finite 200) (Finite 150)",
       OF valid present names k y, of initial_globals initial_globals]
    by (simp add: initial_globals_def)
qed

subsection \<open>C5: an invalid payload\<close>

text \<open>
  C5. When the text parser reports an error, parseReader returns
  \<^verbatim>\<open>reading text format failed: ...\<close> and leaves the channel and the three atomics as
  they were; fetchMetricFamilies hands the same error to the loop.
\<close>

theorem invalid_payload_publishes_nothing:
  assumes "P body = (fams, Some e)"
  shows "parseReader P body s
           = (Some (Errorf (''reading text format failed: '' @ error_text e)), s)
         \<and> fetchMetricFamilies q P url (Responds 200 status body) s
           = (Some (Errorf (''reading text format failed: '' @ error_text e)), s)"
  using assms by (simp add: fetchMetricFamilies_def parseResponse_eq parseReader_invalid)

theorem invalid_payload_publishes_nothing_witness:
  "parseReader (fixed_parser (no_families, Some (Errorf ''text format parsing error in line 1''))) ''}{'' initial_globals
     = (Some (Errorf ''reading text format failed: text format parsing error in line 1''), initial_globals)
   \<and> fetchMetricFamilies plain_quote (fixed_parser (no_families, Some (Errorf ''text format parsing error in line 1'')))
        default_validator_addr (Responds 200 ''200 OK'' ''}{'') initial_globals
     = (Some (Errorf ''reading text format failed: text format parsing error in line 1''), initial_globals)"
  using invalid_payload_publishes_nothing
    [of "fixed_parser (no_families, Some (Errorf ''text format parsing error in line 1''))" "''}{''"
        no_families "Errorf ''text format parsing error in line 1''" initial_globals
        plain_quote default_validator_addr "''200 OK''"]
  by (simp add: fixed_parser_def)


subsection \<open>C6: the sign of the rate\<close>




subsection \<open>C7: the target address\<close>

text \<open>
  C7 as stated fails: the flag has a default (line 18). Without \<^verbatim>\<open>-addr\<close> on the command
  line the run is not fatal and polls \<^verbatim>\<open>http://localhost:9187/metrics\<close>.
\<close>

theorem absent_addr_polls_default:
  "main plain_quote (fixed_parser (no_families, None)) None None [refused]
     = StillPolling 1 \<lparr>metric_channel = [], highest_known_checkpoint = Finite 0,
                  highest_synced_checkpoint = Finite 0, last_delta = Finite 0,
                  writer = [[], ''Error fetching metrics: executing GET request for URL ''
                      @ plain_quote ''http://localhost:9187/metrics''
                      @ '' failed: connection refused .\<newline>'']\<rparr>"
  by (simp add: run_defs)

text \<open>
  C7, amended. The run ends with the fatal message \<^verbatim>\<open>Please specify -addr\<close>, before any
  poll, exactly when the address is given and empty; an absent address flag stands for
  \<^verbatim>\<open>http://localhost:9187/metrics\<close>.
\<close>

theorem empty_addr_is_the_only_fatal:
  "(main q P addr_flag interval_flag inputs = Fatal m
      \<longleftrightarrow> addr_flag = Some [] \<and> m = ''Please specify -addr'')
   \<and> main q P None interval_flag inputs
       = main q P (Some ''http://localhost:9187/metrics'') interval_flag inputs"
proof -
  have "main q P addr_flag interval_flag inputs = Fatal m
          \<longleftrightarrow> addr_flag = Some [] \<and> m = ''Please specify -addr''"
  proof (cases addr_flag)
    case None
    then show ?thesis
      by (simp add: main_def Let_def default_validator_addr_def main_loop_not_Fatal)
  next
    case (Some a)
    then show ?thesis
      by (cases "a = []") (auto simp: main_def Let_def main_loop_not_Fatal)
  qed
  moreover have "main q P None interval_flag inputs
       = main q P (Some ''http://localhost:9187/metrics'') interval_flag inputs"
    by (simp add: main_def default_validator_addr_def)
  ultimately show ?thesis by blast
qed

theorem empty_addr_is_the_only_fatal_witness:
  "main plain_quote (fixed_parser (no_families, None)) (Some []) None [refused]
     = Fatal ''Please specify -addr''
   \<and> main plain_quote (fixed_parser (no_families, None)) None None [refused]
     = main plain_quote (fixed_parser (no_families, None)) (Some ''http://localhost:9187/metrics'')
         None [refused]"
  using empty_addr_is_the_only_fatal
    [of plain_quote "fixed_parser (no_families, None)" "Some []" None "[refused]"
        "''Please specify -addr''"]
  by simp

subsection \<open>C8: the indicator of a failed poll\<close>

text \<open>
  C8 as stated fails: the markers count every failure so far, not the consecutive ones.
  A failure, a successful poll and a second failure show one marker and then two.
\<close>

theorem indicator_counts_past_failures:
  "main plain_quote (fixed_parser (no_families, None)) None None [refused, ok_response 2 0, refused]
     = StillPolling 2 \<lparr>metric_channel = [], highest_known_checkpoint = Finite 0,
                  highest_synced_checkpoint = Finite 0, last_delta = Finite 0,
                  writer = [[],
                    ''Error fetching metrics: executing GET request for URL ''
                      @ plain_quote ''http://localhost:9187/metrics''
                      @ '' failed: connection refused .\<newline>'',
                    ''Error fetching metrics: executing GET request for URL ''
                      @ plain_quote ''http://localhost:9187/metrics''
                      @ '' failed: connection refused ..\<newline>'']\<rparr>"
  by (simp add: run_defs)

text \<open>
  C8, amended. A failed poll adds one to the counter and writes one error line whose
  indicator has one marker for every failed poll since the start of the process, the
  polls that succeeded in between not taken off: after any polls that left the loop
  running, the counter is the number of those that failed, and one more failing poll
  shows that number plus one. A run that begins with failures only shows
  \<open>1, 2, \<dots>\<close> markers; three failures with no poll before them end with an indicator
  of length 3.
\<close>

theorem failed_poll_adds_one_marker:
  assumes before: "main q P a n pre = StillPolling e s"
      and failed: "poll_failed P (exchange i)"
  shows "e = length (filter (\<lambda>j. poll_failed P (exchange j)) pre)
         \<and> ((\<exists>p. main q P a n (pre @ [i]) = Panicked p)
            \<or> (\<exists>s'. main q P a n (pre @ [i]) = StillPolling (Suc e) s'
                  \<and> error_indicators (writer s')
                      = error_indicators (writer s)
                        @ [Suc (length (filter (\<lambda>j. poll_failed P (exchange j)) pre))]))
         \<and> ((\<forall>j\<in>set inputs. poll_failed P (exchange j)) \<longrightarrow>
              (\<exists>sf. main_loop q P iv url inputs 0 (Fprintf [] initial_globals)
                       = StillPolling (length inputs) sf
                   \<and> error_indicators (writer sf) = [1..<Suc (length inputs)]))
         \<and> (poll_failed P (exchange i1) \<and> poll_failed P (exchange i2) \<and> poll_failed P (exchange i3) \<longrightarrow>
              (\<exists>sf. main_loop q P iv url [i1, i2, i3] 0 (Fprintf [] initial_globals) = StillPolling 3 sf
                   \<and> error_indicators (writer sf) = [1, 2, 3]))"
proof -
  define addr where "addr = (case a of None \<Rightarrow> default_validator_addr | Some x \<Rightarrow> x)"
  define secs where "secs = (case n of None \<Rightarrow> default_update_interval | Some x \<Rightarrow> x)"
  from before have alive: "main q P a n pre = StillPolling e s \<or> main q P a n pre = Exited e s"
    by simp
  note loop = main_is_loop [OF alive, folded addr_def secs_def]
  have run: "main_loop q P secs addr pre 0 (Fprintf [] initial_globals) = StillPolling e s"
    using loop [of pre] before by simp
  have "StillPolling e s = StillPolling e s \<or> StillPolling e s = Exited e s" by simp
  from main_loop_run [OF run this] obtain k where
    k: "k \<le> length pre"
       "e = 0 + length (filter (\<lambda>i. poll_failed P (exchange i)) (take k pre))"
       "error_indicators (writer s)
          = error_indicators (writer (Fprintf [] initial_globals)) @ [Suc 0..<Suc e]"
       "StillPolling e s = StillPolling e s \<longrightarrow> k = length pre
          \<and> count_list (writer s) ''Node caught up\<newline>''
              = count_list (writer (Fprintf [] initial_globals)) ''Node caught up\<newline>''"
       "StillPolling e s = Exited e s \<longrightarrow>
              0 < k
              \<and> (\<exists>s'. main_loop q P secs addr (take (k - 1) pre) 0 (Fprintf [] initial_globals)
                      = StillPolling e s')
              \<and> count_list (writer s) ''Node caught up\<newline>''
                = count_list (writer (Fprintf [] initial_globals)) ''Node caught up\<newline>''
                  + (if f64_nonzero (highest_known_checkpoint s) then 1 else 0)"
    by (elim exE conjE)
  from k(4) have "k = length pre" by simp
  with k(2) have total: "e = length (filter (\<lambda>j. poll_failed P (exchange j)) pre)"
    by simp
  have next_poll: "main q P a n (pre @ [i]) = main_loop q P secs addr [i] e s"
    using loop [of "pre @ [i]"] main_loop_append [OF run, of "[i]"] by simp
  have one: "(\<exists>p. main q P a n (pre @ [i]) = Panicked p)
            \<or> (\<exists>s'. main q P a n (pre @ [i]) = StillPolling (Suc e) s'
                  \<and> error_indicators (writer s')
                      = error_indicators (writer s)
                        @ [Suc (length (filter (\<lambda>j. poll_failed P (exchange j)) pre))])"
  proof -
    from main_iteration_failed [OF failed, of q secs addr e s] consider
      p where "main_iteration q P secs addr i e s = Crash p"
      | s' where "main_iteration q P secs addr i e s = Continue (Suc e) s'"
          "error_indicators (writer s') = error_indicators (writer s) @ [Suc e]"
      by blast
    then show ?thesis
    proof cases
      case 1
      then have "main q P a n (pre @ [i]) = Panicked p"
        unfolding next_poll by simp
      then show ?thesis by blast
    next
      case 2
      then have "main q P a n (pre @ [i]) = StillPolling (Suc e) s'"
        unfolding next_poll by simp
      with 2(2) total show ?thesis by blast
    qed
  qed
  have many: "\<exists>sf. main_loop q P iv url xs 0 (Fprintf [] initial_globals)
               = StillPolling (length xs) sf
           \<and> error_indicators (writer sf) = [1..<Suc (length xs)]"
    if "\<forall>j\<in>set xs. poll_failed P (exchange j)" for xs
    using failures_only_run [OF that start_state(1), of q iv url 0] start_state(2) by simp
  have three: "\<exists>sf. main_loop q P iv url [i1, i2, i3] 0 (Fprintf [] initial_globals) = StillPolling 3 sf
           \<and> error_indicators (writer sf) = [1, 2, 3]"
    if "poll_failed P (exchange i1) \<and> poll_failed P (exchange i2) \<and> poll_failed P (exchange i3)"
  proof -
    from that have fails: "\<forall>j\<in>set [i1, i2, i3]. poll_failed P (exchange j)" by simp
    from many [OF fails] obtain sf where
      r: "main_loop q P iv url [i1, i2, i3] 0 (Fprintf [] initial_globals)
            = StillPolling (length [i1, i2, i3]) sf" and
      w: "error_indicators (writer sf) = [1..<Suc (length [i1, i2, i3])]"
      by blast
    have l: "length [i1, i2, i3] = 3" by simp
    have u: "[1..<Suc 3] = [1, 2, 3]" by (simp add: upt_conv_Cons eval_nat_numeral)
    from r w show ?thesis unfolding l u by blast
  qed
  from total one many three show ?thesis by blast
qed

theorem failed_poll_adds_one_marker_witness:
  "\<exists>s'. main plain_quote (fixed_parser (no_families, None)) None None
           ([refused, ok_response 2 0] @ [refused]) = StillPolling (Suc 1) s'
      \<and> error_indicators (writer s')
          = [1] @ [Suc (length (filter (\<lambda>j. poll_failed (fixed_parser (no_families, None)) (exchange j))
                                 [refused, ok_response 2 0]))]"
proof -
  define s where "s = \<lparr>metric_channel = [], highest_known_checkpoint = Finite 0,
                  highest_synced_checkpoint = Finite 0, last_delta = Finite 0,
                  writer = [[],
                    ''Error fetching metrics: executing GET request for URL ''
                      @ plain_quote ''http://localhost:9187/metrics''
                      @ '' failed: connection refused .\<newline>'']\<rparr>"
  have before: "main plain_quote (fixed_parser (no_families, None)) None None
                  [refused, ok_response 2 0] = StillPolling 1 s"
    by (simp add: run_defs s_def)
  have failed: "poll_failed (fixed_parser (no_families, None)) (exchange refused)"
    by (simp add: poll_failed_def refused_def)
  have shown: "error_indicators (writer s) = [1]"
    by (simp add: s_def error_indicators_def is_error_line_def indicator_length_def plain_quote_def)
  have no_panic: "main plain_quote (fixed_parser (no_families, None)) None None
           ([refused, ok_response 2 0] @ [refused]) \<noteq> Panicked p" for p
    by (simp add: run_defs)
  from failed_poll_adds_one_marker [OF before failed] no_panic shown
  show ?thesis by (metis One_nat_def)
qed

subsection \<open>C9: known before synced\<close>

text \<open>
  C9. In a successful poll parseReader appends the known family's entry and then the
  synced family's entry to the channel. The aggregator receives from the front, so it
  receives them in this order; on a channel that was empty its first receive handles the
  known entry while the synced entry is still waiting.
\<close>

theorem known_sample_before_synced:
  assumes "P body = (fams, None)"
  shows "parseReader P body s =
           (None, s\<lparr>metric_channel := metric_channel s
              @ [fams ''highest_known_checkpoint'', fams ''highest_synced_checkpoint'']\<rparr>)
         \<and> (\<forall>n s'. monitorChannel iv n (snd (parseReader P body s)) = Inr s' \<longrightarrow>
               metric_channel s' = drop n (metric_channel s
                 @ [fams ''highest_known_checkpoint'', fams ''highest_synced_checkpoint'']))
         \<and> (metric_channel s = [] \<longrightarrow>
               monitorChannel iv 1 (snd (parseReader P body s))
                 = monitor_body iv (fams ''highest_known_checkpoint'')
                     (s\<lparr>metric_channel := [fams ''highest_synced_checkpoint'']\<rparr>))"
proof -
  have eq: "parseReader P body s =
           (None, s\<lparr>metric_channel := metric_channel s
              @ [fams ''highest_known_checkpoint'', fams ''highest_synced_checkpoint'']\<rparr>)"
    using assms parseReader_valid [of P body fams s] by simp
  have order: "metric_channel s' = drop n (metric_channel s
                 @ [fams ''highest_known_checkpoint'', fams ''highest_synced_checkpoint''])"
    if "monitorChannel iv n (snd (parseReader P body s)) = Inr s'" for n s'
    using monitorChannel_takes_front [OF that] unfolding eq by simp
  have first: "monitorChannel iv 1 (snd (parseReader P body s))
                 = monitor_body iv (fams ''highest_known_checkpoint'')
                     (s\<lparr>metric_channel := [fams ''highest_synced_checkpoint'']\<rparr>)"
    if "metric_channel s = []"
    unfolding eq using that
      monitorChannel_once [where iv = iv and s = s and f = "fams ''highest_known_checkpoint''"
        and rest = "[fams ''highest_synced_checkpoint'']"]
    by simp
  from eq order first show ?thesis by blast
qed

theorem known_sample_before_synced_witness:
  "parseReader (fixed_parser (both_families (Finite 200) (Finite 150), None)) [] initial_globals =
     (None, initial_globals\<lparr>metric_channel := metric_channel initial_globals @
        [both_families (Finite 200) (Finite 150) ''highest_known_checkpoint'',
         both_families (Finite 200) (Finite 150) ''highest_synced_checkpoint'']\<rparr>)
   \<and> monitorChannel 1 1 (snd (parseReader (fixed_parser (both_families (Finite 200) (Finite 150), None)) [] initial_globals))
       = monitor_body 1 (both_families (Finite 200) (Finite 150) ''highest_known_checkpoint'')
           (initial_globals\<lparr>metric_channel := [both_families (Finite 200) (Finite 150) ''highest_synced_checkpoint'']\<rparr>)"
proof -
  have valid: "fixed_parser (both_families (Finite 200) (Finite 150), None) [] = (both_families (Finite 200) (Finite 150), None)"
    by (simp add: fixed_parser_def)
  have empty: "metric_channel initial_globals = []"
    by (simp add: initial_globals_def)
  from valid empty
    known_sample_before_synced [of "fixed_parser (both_families (Finite 200) (Finite 150), None)" "[]"
        "both_families (Finite 200) (Finite 150)" initial_globals 1]
  show ?thesis by blast
qed

subsection \<open>C10: the counter is never reset\<close>

text \<open>
  C10. In a run that is still polling or has returned, the counter is the number of
  failed polls among the \<open>k\<close> polls made (all of them while the loop is still polling;
  on return the loop was still polling after \<open>k - 1\<close> polls), the error lines written
  carry the indicators \<open>1, 2, \<dots>\<close> up to the counter, and a successful poll leaves the
  counter as it was.
\<close>

theorem failure_counter_is_lifetime_total:
  assumes run: "main q P a n inputs = out"
      and alive: "out = StillPolling e s \<or> out = Exited e s"
  shows "(\<exists>k\<le>length inputs.
            e = length (filter (\<lambda>i. poll_failed P (exchange i)) (take k inputs))
            \<and> (out = StillPolling e s \<longrightarrow> k = length inputs)
            \<and> (out = Exited e s \<longrightarrow>
                  0 < k \<and> (\<exists>s'. main q P a n (take (k - 1) inputs) = StillPolling e s')))
         \<and> error_indicators (writer s) = [1..<Suc e]
         \<and> (\<not> poll_failed P (exchange i) \<longrightarrow>
              (\<forall>c' t'. main_iteration q P iv url i c t = Continue c' t'
                       \<or> main_iteration q P iv url i c t = Break c' t' \<longrightarrow> c' = c))"
proof -
  define addr where "addr = (case a of None \<Rightarrow> default_validator_addr | Some x \<Rightarrow> x)"
  define secs where "secs = (case n of None \<Rightarrow> default_update_interval | Some x \<Rightarrow> x)"
  have unfolded: "main q P a n xs =
      (if addr = [] then Fatal ''Please specify -addr''
       else if wrap64 (wrap64 secs * 1000000000) \<le> 0 then Panicked NonPositiveTickerInterval
       else main_loop q P secs addr xs 0 (Fprintf [] initial_globals))" for xs
    by (simp add: main_def Let_def addr_def secs_def)
  have started: "\<not> (addr = [] \<or> wrap64 (wrap64 secs * 1000000000) \<le> 0)"
  proof
    assume "addr = [] \<or> wrap64 (wrap64 secs * 1000000000) \<le> 0"
    with unfolded [of inputs] have "main q P a n inputs = Fatal ''Please specify -addr''
                        \<or> main q P a n inputs = Panicked NonPositiveTickerInterval"
      by (simp split: if_splits)
    with run alive show False by auto
  qed
  have main_is_loop: "main q P a n xs = main_loop q P secs addr xs 0 (Fprintf [] initial_globals)" for xs
    using started unfolded [of xs] by simp
  have loop: "main_loop q P secs addr inputs 0 (Fprintf [] initial_globals) = out"
    using main_is_loop [of inputs] run by simp
  have start: "error_indicators (writer (Fprintf [] initial_globals)) = []"
    by (simp add: initial_globals_def error_indicators_def is_error_line_def)
  from main_loop_run [OF loop alive] obtain k where
    k: "k \<le> length inputs"
       "e = 0 + length (filter (\<lambda>i. poll_failed P (exchange i)) (take k inputs))"
       "error_indicators (writer s) = error_indicators (writer (Fprintf [] initial_globals)) @ [Suc 0..<Suc e]"
       "out = StillPolling e s \<longrightarrow> k = length inputs
              \<and> count_list (writer s) ''Node caught up\<newline>''
                  = count_list (writer (Fprintf [] initial_globals)) ''Node caught up\<newline>''"
       "out = Exited e s \<longrightarrow>
              0 < k
              \<and> (\<exists>s'. main_loop q P secs addr (take (k - 1) inputs) 0 (Fprintf [] initial_globals)
                      = StillPolling e s')
              \<and> count_list (writer s) ''Node caught up\<newline>''
                = count_list (writer (Fprintf [] initial_globals)) ''Node caught up\<newline>''
                  + (if f64_nonzero (highest_known_checkpoint s) then 1 else 0)"
    by (elim exE conjE)
  have total: "\<exists>k\<le>length inputs.
            e = length (filter (\<lambda>i. poll_failed P (exchange i)) (take k inputs))
            \<and> (out = StillPolling e s \<longrightarrow> k = length inputs)
            \<and> (out = Exited e s \<longrightarrow>
                  0 < k \<and> (\<exists>s'. main q P a n (take (k - 1) inputs) = StillPolling e s'))"
  proof (intro exI [of _ k] conjI)
    show "k \<le> length inputs" by (rule k(1))
    show "e = length (filter (\<lambda>i. poll_failed P (exchange i)) (take k inputs))"
      using k(2) by (simp only: add_0)
    show "out = StillPolling e s \<longrightarrow> k = length inputs"
      using k(4) by blast
    show "out = Exited e s \<longrightarrow>
            0 < k \<and> (\<exists>s'. main q P a n (take (k - 1) inputs) = StillPolling e s')"
      using k(5) unfolding main_is_loop by blast
  qed
  have shown: "error_indicators (writer s) = [1..<Suc e]"
    using k(3) start by simp
  have kept: "c' = c"
    if ok: "\<not> poll_failed P (exchange i)"
    and res: "main_iteration q P iv url i c t = Continue c' t'
              \<or> main_iteration q P iv url i c t = Break c' t'" for c' t'
  proof -
    from main_iteration_succeeded [OF ok, of q iv url c t] consider
      p where "main_iteration q P iv url i c t = Crash p"
      | u where "main_iteration q P iv url i c t = Continue c u"
      | u where "main_iteration q P iv url i c t = Break c u"
      by blast
    then show ?thesis
    proof cases
      case 1 with res show ?thesis by simp
    next
      case 2 with res show ?thesis by simp
    next
      case 3 with res show ?thesis by simp
    qed
  qed
  from total shown kept show ?thesis by blast
qed

theorem failure_counter_is_lifetime_total_witness:
  "\<exists>s. main plain_quote (fixed_parser (no_families, None)) None None
          [ok_response 2 0, refused, ok_response 1 1, refused] = StillPolling 2 s
      \<and> error_indicators (writer s) = [1..<Suc 2]"
proof -
  define sf where "sf = \<lparr>metric_channel = [], highest_known_checkpoint = Finite 0,
                  highest_synced_checkpoint = Finite 0, last_delta = Finite 0,
                  writer = [[],
                    ''Error fetching metrics: executing GET request for URL ''
                      @ plain_quote ''http://localhost:9187/metrics''
                      @ '' failed: connection refused .\<newline>'',
                    ''Error fetching metrics: executing GET request for URL ''
                      @ plain_quote ''http://localhost:9187/metrics''
                      @ '' failed: connection refused ..\<newline>'']\<rparr>"
  have run: "main plain_quote (fixed_parser (no_families, None)) None None
          [ok_response 2 0, refused, ok_response 1 1, refused] = StillPolling 2 sf"
    by (simp add: run_defs sf_def)
  have alive: "StillPolling 2 sf = StillPolling 2 sf \<or> StillPolling 2 sf = Exited 2 sf"
    by simp
  from failure_counter_is_lifetime_total [OF run alive]
  have "error_indicators (writer sf) = [1..<Suc 2]" by blast
  with run show ?thesis by blast
qed


end
